theory Spec2Isabelle
  imports Main "HOL-Library.AList" "HOL-Library.Char_ord" "HOL-Library.List_Lexorder"
begin

section \<open>Data model\<close>

text \<open>
  A chat message of the application is a \<^verbatim>\<open>HumanMessage\<close> or an \<^verbatim>\<open>AIMessage\<close>, each
  carrying its content. In the \<^verbatim>\<open>messages\<close> column a message is a JSON object with the
  keys \<^verbatim>\<open>type\<close> and \<^verbatim>\<open>content\<close>.
\<close>

datatype message = HumanMessage string | AIMessage string

record json_message =
  msg_type :: string
  content :: string

text \<open>
  A row of the table \<^verbatim>\<open>chats\<close>. The two timestamp columns are optional: the program
  writes them on its first attempt and leaves them out on its fallback attempt, so a
  column the program did not supply is \<open>None\<close>.
\<close>

record chat_row =
  username :: string
  chat_name :: string
  messages :: "json_message list"
  created_at :: "string option"
  updated_at :: "string option"

text \<open>
  A document (and a row of the table \<^verbatim>\<open>documents\<close>): its text and its metadata, a
  dictionary that \<^verbatim>\<open>add_documents\<close> allows to be \<^verbatim>\<open>None\<close>. The dictionary is an
  association list updated with \<open>AList.update\<close>, which overwrites a key in place and
  appends a new one, as a Python dict does.
\<close>

record document =
  page_content :: string
  metadata :: "(string \<times> string) list option"

text \<open>
  The Supabase project: the two tables, and the outcomes of the requests still to come
  (\<open>True\<close>: the request raises). An exhausted list means that every later request
  succeeds.
\<close>

record database =
  chats :: "chat_row list"
  documents :: "document list"
  faults :: "bool list"

datatype error = StoreError | IOError | LoaderError | ModelError

section \<open>Requests to the store\<close>

text \<open>
  \<^verbatim>\<open>.execute()\<close>: consumes the next outcome; the flag tells whether the request went
  through.
\<close>

definition execute :: "database \<Rightarrow> bool \<times> database" where
  "execute db =
     (case faults db of
        [] \<Rightarrow> (True, db)
      | f # fs \<Rightarrow> (\<not> f, db\<lparr>faults := fs\<rparr>))"

text \<open>
  Whether the \<open>n\<close>-th request from now raises, counting from 0.
\<close>

definition raises :: "nat \<Rightarrow> database \<Rightarrow> bool" where
  "raises n db = (n < length (faults db) \<and> faults db ! n)"

text \<open>\<^verbatim>\<open>.eq("username", u).eq("chat_name", x)\<close>\<close>

definition is_chat :: "string \<Rightarrow> string \<Rightarrow> chat_row \<Rightarrow> bool" where
  "is_chat u x r = (username r = u \<and> chat_name r = x)"

definition select_chat :: "string \<Rightarrow> string \<Rightarrow> chat_row list \<Rightarrow> chat_row list" where
  "select_chat u x rows = filter (is_chat u x) rows"

text \<open>
  Modelled from the spec: the conflict key of \<^verbatim>\<open>upsert\<close> is declared with the table,
  which the repository's sources do not contain; the spec names it as owner plus chat
  name. A row with that key has the supplied columns overwritten, and without such a
  row a new one is appended. \<open>ts\<close> is the \<^verbatim>\<open>updated_at\<close> value sent, if any.
\<close>

definition upsert_chat ::
  "string \<Rightarrow> string \<Rightarrow> json_message list \<Rightarrow> string option \<Rightarrow> chat_row list \<Rightarrow> chat_row list" where
  "upsert_chat u x ms ts rows =
     (if select_chat u x rows = []
      then rows @ [\<lparr>username = u, chat_name = x, messages = ms,
                    created_at = None, updated_at = ts\<rparr>]
      else map (\<lambda>r. if is_chat u x r
                     then r\<lparr>messages := ms,
                            updated_at := (case ts of None \<Rightarrow> updated_at r | Some t \<Rightarrow> Some t)\<rparr>
                     else r) rows)"

text \<open>\<^verbatim>\<open>.update({"chat_name": new, ...}).eq("username", u).eq("chat_name", old)\<close>\<close>

definition update_chat_name ::
  "string \<Rightarrow> string \<Rightarrow> string \<Rightarrow> string option \<Rightarrow> chat_row list \<Rightarrow> chat_row list" where
  "update_chat_name u old new ts rows =
     map (\<lambda>r. if is_chat u old r
               then r\<lparr>chat_name := new,
                      updated_at := (case ts of None \<Rightarrow> updated_at r | Some t \<Rightarrow> Some t)\<rparr>
               else r) rows"

text \<open>\<^verbatim>\<open>.delete().eq("username", u).eq("chat_name", x)\<close>\<close>

definition delete_rows :: "string \<Rightarrow> string \<Rightarrow> chat_row list \<Rightarrow> chat_row list" where
  "delete_rows u x rows = filter (\<lambda>r. \<not> is_chat u x r) rows"

section \<open>ConversationManager\<close>

text \<open>The two list comprehensions of \<^verbatim>\<open>save_history\<close> and \<^verbatim>\<open>load_history\<close>.\<close>

fun to_json :: "message \<Rightarrow> json_message" where
  "to_json (HumanMessage c) = \<lparr>msg_type = ''human'', content = c\<rparr>"
| "to_json (AIMessage c) = \<lparr>msg_type = ''ai'', content = c\<rparr>"

definition from_json :: "json_message \<Rightarrow> message" where
  "from_json m =
     (if msg_type m = ''human'' then HumanMessage (content m) else AIMessage (content m))"

text \<open>
  \<^verbatim>\<open>load_history\<close>: one select; the first row's messages, or the empty list when the
  chat has no row or the request raises.
\<close>

definition load_history :: "string \<Rightarrow> string \<Rightarrow> database \<Rightarrow> message list \<times> database" where
  "load_history u x db =
     (let (ok, db1) = execute db in
      if ok then
        (case select_chat u x (chats db1) of
           [] \<Rightarrow> ([], db1)
         | r # _ \<Rightarrow> (map from_json (messages r), db1))
      else ([], db1))"

text \<open>
  \<^verbatim>\<open>save_history\<close>: an upsert with \<^verbatim>\<open>updated_at\<close>; if that raises, an upsert without
  it; if that raises too, the outer handler prints and the method returns \<^verbatim>\<open>None\<close> as
  it does on success. \<open>now\<close> is the clock reading.
\<close>

definition save_history ::
  "string \<Rightarrow> string \<Rightarrow> message list \<Rightarrow> string \<Rightarrow> database \<Rightarrow> (error + unit) \<times> database" where
  "save_history u x history now db =
     (let history_json = map to_json history;
          (ok1, db1) = execute db in
      if ok1 then (Inr (), db1\<lparr>chats := upsert_chat u x history_json (Some now) (chats db1)\<rparr>)
      else
        (let (ok2, db2) = execute db1 in
         if ok2 then (Inr (), db2\<lparr>chats := upsert_chat u x history_json None (chats db2)\<rparr>)
         else (Inr (), db2)))"

text \<open>
  \<^verbatim>\<open>rename_chat\<close>: rejects an empty or unchanged name before any request; then a select
  for the new name, and an update that is tried with and then without \<^verbatim>\<open>updated_at\<close>.
\<close>

definition rename_chat ::
  "string \<Rightarrow> string \<Rightarrow> string \<Rightarrow> string \<Rightarrow> database \<Rightarrow> bool \<times> database" where
  "rename_chat u old_name new_name now db =
     (if new_name = [] \<or> new_name = old_name then (False, db)
      else
        (let (ok0, db0) = execute db in
         if \<not> ok0 then (False, db0)
         else if select_chat u new_name (chats db0) \<noteq> [] then (False, db0)
         else
           (let (ok1, db1) = execute db0 in
            if ok1
            then (True, db1\<lparr>chats := update_chat_name u old_name new_name (Some now) (chats db1)\<rparr>)
            else
              (let (ok2, db2) = execute db1 in
               if ok2
               then (True, db2\<lparr>chats := update_chat_name u old_name new_name None (chats db2)\<rparr>)
               else (False, db2)))))"

text \<open>\<^verbatim>\<open>delete_chat\<close>: one delete request; a raise is printed and the method returns.\<close>

definition delete_chat :: "string \<Rightarrow> string \<Rightarrow> database \<Rightarrow> (error + unit) \<times> database" where
  "delete_chat u x db =
     (let (ok, db1) = execute db in
      if ok then (Inr (), db1\<lparr>chats := delete_rows u x (chats db1)\<rparr>)
      else (Inr (), db1))"

text \<open>
  \<^verbatim>\<open>create_new_chat\<close>: a select for the name, then an insert that is tried with the two
  timestamps and then without them. \<open>t1\<close> and \<open>t2\<close> are the two clock readings.
\<close>

definition new_chat_row :: "string \<Rightarrow> string \<Rightarrow> string option \<Rightarrow> string option \<Rightarrow> chat_row" where
  "new_chat_row u x c t =
     \<lparr>username = u, chat_name = x, messages = [], created_at = c, updated_at = t\<rparr>"

definition create_new_chat ::
  "string \<Rightarrow> string \<Rightarrow> string \<Rightarrow> string \<Rightarrow> database \<Rightarrow> bool \<times> database" where
  "create_new_chat u x t1 t2 db =
     (let (ok0, db0) = execute db in
      if \<not> ok0 then (False, db0)
      else if select_chat u x (chats db0) \<noteq> [] then (False, db0)
      else
        (let (ok1, db1) = execute db0 in
         if ok1
         then (True, db1\<lparr>chats := chats db1 @ [new_chat_row u x (Some t1) (Some t2)]\<rparr>)
         else
           (let (ok2, db2) = execute db1 in
            if ok2
            then (True, db2\<lparr>chats := chats db2 @ [new_chat_row u x None None]\<rparr>)
            else (False, db2))))"

text \<open>The number of chat rows a user owns.\<close>

definition chat_count :: "string \<Rightarrow> database \<Rightarrow> nat" where
  "chat_count u db = length (filter (\<lambda>r. username r = u) (chats db))"

section \<open>VectorStoreManager\<close>

text \<open>\<^verbatim>\<open>metadata.get(key)\<close> on a document's metadata.\<close>

definition metadata_get :: "string \<Rightarrow> document \<Rightarrow> string option" where
  "metadata_get key d = (case metadata d of None \<Rightarrow> None | Some m \<Rightarrow> map_of m key)"

text \<open>
  The body of the loop of \<^verbatim>\<open>add_documents\<close>: a missing metadata dictionary is created,
  and the key \<^verbatim>\<open>username\<close> is set to the manager's user.
\<close>

definition set_username :: "string \<Rightarrow> document \<Rightarrow> document" where
  "set_username u split =
     split\<lparr>metadata :=
       Some (AList.update ''username'' u (case metadata split of None \<Rightarrow> [] | Some m \<Rightarrow> m))\<rparr>"

text \<open>
  The vector store's own \<^verbatim>\<open>add_documents\<close>, which is library code: it writes the rows in
  batches of 500, one request for each batch, in order. No rows make no request. The
  batch whose request raises ends the call with that exception; the batches before it
  stay written.
\<close>

fun add_vectors :: "document list \<Rightarrow> database \<Rightarrow> (error + unit) \<times> database" where
  "add_vectors rows db =
     (if rows = [] then (Inr (), db)
      else
        (let (ok, db1) = execute db in
         if ok then add_vectors (drop 500 rows) (db1\<lparr>documents := documents db1 @ take 500 rows\<rparr>)
         else (Inl StoreError, db1)))"

declare add_vectors.simps [simp del]

text \<open>The number of requests that writing the rows takes.\<close>

definition batch_count :: "document list \<Rightarrow> nat" where
  "batch_count rows = (length rows + 499) div 500"

text \<open>
  \<^verbatim>\<open>add_documents\<close>. The text splitter is a parameter. The method returns at once on an
  empty list; otherwise it splits, tags every split, and hands the tagged splits to the
  vector store, whose failure is not caught here.
\<close>

definition add_documents ::
  "(document list \<Rightarrow> document list) \<Rightarrow> string \<Rightarrow> document list \<Rightarrow> database
     \<Rightarrow> (error + unit) \<times> database" where
  "add_documents split_documents u docs db =
     (if docs = [] then (Inr (), db)
      else
        (let splits = map (set_username u) (split_documents docs)
         in add_vectors splits db))"

text \<open>
  \<^verbatim>\<open>.contains("metadata", flt)\<close>: the row's metadata holds every pair of \<open>flt\<close>.
\<close>

definition contains_metadata :: "(string \<times> string) list \<Rightarrow> document \<Rightarrow> bool" where
  "contains_metadata flt d =
     (case metadata d of
        None \<Rightarrow> False
      | Some m \<Rightarrow> list_all (\<lambda>kv. map_of m (fst kv) = Some (snd kv)) flt)"

text \<open>\<^verbatim>\<open>os.path.basename\<close>: what follows the last slash.\<close>

definition basename :: "string \<Rightarrow> string" where
  "basename p = rev (takeWhile (\<lambda>c. c \<noteq> CHR ''/'') (rev p))"

text \<open>
  The loop of \<^verbatim>\<open>get_document_sources\<close> over the rows of the response. \<open>None\<close> is the
  exception raised by \<^verbatim>\<open>.get\<close> on a metadata value that is \<^verbatim>\<open>None\<close>; the names are
  gathered into a set, so their order here is immaterial.
\<close>

fun collect_sources :: "string \<Rightarrow> document list \<Rightarrow> string list option" where
  "collect_sources u [] = Some []"
| "collect_sources u (item # items) =
     (case metadata item of
        None \<Rightarrow> None
      | Some m \<Rightarrow>
          (case collect_sources u items of
             None \<Rightarrow> None
           | Some sources \<Rightarrow>
               if map_of m ''username'' = Some u
               then (case map_of m ''source'' of
                       None \<Rightarrow> Some sources
                     | Some source \<Rightarrow>
                         if source = [] then Some sources
                         else Some (basename source # sources))
               else Some sources))"

text \<open>
  \<^verbatim>\<open>get_document_sources\<close>: one select with the containment filter on the user; the
  sorted distinct basenames, or the empty list when the request or the loop raises.
\<close>

definition get_document_sources :: "string \<Rightarrow> database \<Rightarrow> string list \<times> database" where
  "get_document_sources u db =
     (let (ok, db1) = execute db in
      if \<not> ok then ([], db1)
      else
        (let data = filter (contains_metadata [(''username'', u)]) (documents db1) in
         if data = [] then ([], db1)
         else (case collect_sources u data of
                 None \<Rightarrow> ([], db1)
               | Some sources \<Rightarrow> (sort (remdups sources), db1))))"

section \<open>Retrieval and answering\<close>

text \<open>
  The retriever that \<^verbatim>\<open>_render_chat_interface\<close> builds: the filter on the session's user
  and \<^verbatim>\<open>k = 5\<close>.
\<close>

record retriever =
  search_filter :: "(string \<times> string) list"
  search_k :: nat

definition as_retriever :: "string \<Rightarrow> retriever" where
  "as_retriever u = \<lparr>search_filter = [(''username'', u)], search_k = 5\<rparr>"

text \<open>
  Modelled from the spec: the query that the vector store runs (\<^verbatim>\<open>match_documents\<close>)
  lives in the database and is not in the repository's sources. By the spec it searches
  the rows whose metadata matches the filter and returns up to \<open>k\<close> of them by
  descending similarity. The similarity of a query and a chunk is the parameter
  \<open>score\<close>.
\<close>

definition similarity_search ::
  "(string \<Rightarrow> document \<Rightarrow> int) \<Rightarrow> retriever \<Rightarrow> string \<Rightarrow> document list \<Rightarrow> document list" where
  "similarity_search score r query rows =
     take (search_k r)
       (sort_key (\<lambda>d. - score query d) (filter (contains_metadata (search_filter r)) rows))"

text \<open>
  Modelled from the spec: invoking the retriever is one request to the vector store,
  whose code is not in the repository's sources; it returns the result of the search, or
  raises when the request does.
\<close>

definition get_relevant_documents ::
  "(string \<Rightarrow> document \<Rightarrow> int) \<Rightarrow> retriever \<Rightarrow> string \<Rightarrow> database
     \<Rightarrow> (error + document list) \<times> database" where
  "get_relevant_documents score r query db =
     (let (ok, db1) = execute db in
      if ok then (Inr (similarity_search score r query (documents db1)), db1)
      else (Inl StoreError, db1))"

text \<open>
  Modelled from the spec: \<^verbatim>\<open>components/llm_handler.py\<close> is not among the repository's
  sources. By the spec's glossary the grounding context is the concatenation of the
  retrieved chunks.
\<close>

definition build_context :: "document list \<Rightarrow> string" where
  "build_context docs = concat (map page_content docs)"

text \<open>
  Modelled from the spec: the chain of \<^verbatim>\<open>components/llm_handler.py\<close>, which is not among
  the repository's sources. By the spec it searches with the question, builds the
  grounding context from the retrieved chunks, and returns what the language model
  generates from context, history and question. The language model is the parameter
  \<open>generate\<close>, which may fail.
\<close>

definition get_conversational_rag_chain ::
  "(string \<Rightarrow> message list \<Rightarrow> string \<Rightarrow> error + string) \<Rightarrow> (string \<Rightarrow> document \<Rightarrow> int) \<Rightarrow> retriever
     \<Rightarrow> string \<Rightarrow> message list \<Rightarrow> database \<Rightarrow> (error + string) \<times> database" where
  "get_conversational_rag_chain generate score r input chat_history db =
     (case get_relevant_documents score r input db of
        (Inl e, db1) \<Rightarrow> (Inl e, db1)
      | (Inr docs, db1) \<Rightarrow> (generate (build_context docs) chat_history input, db1))"

text \<open>The fields of the Streamlit session state that the chat input uses.\<close>

record session_state =
  ss_username :: string
  ss_current_chat :: string
  ss_messages :: "message list"

text \<open>
  The chat input of \<^verbatim>\<open>_render_chat_interface\<close>: a non-empty prompt is appended as a human
  message, the chain is invoked with the prompt and with the messages but the last, and
  the answer is appended and the chat saved. A failure of the chain is not caught.
\<close>

definition chat_input ::
  "(string \<Rightarrow> message list \<Rightarrow> string \<Rightarrow> error + string) \<Rightarrow> (string \<Rightarrow> document \<Rightarrow> int)
     \<Rightarrow> string \<Rightarrow> string \<Rightarrow> session_state \<Rightarrow> database
     \<Rightarrow> (error + string option) \<times> session_state \<times> database" where
  "chat_input generate score prompt now st db =
     (if prompt = [] then (Inr None, st, db)
      else
        (let st1 = st\<lparr>ss_messages := ss_messages st @ [HumanMessage prompt]\<rparr>;
             r = as_retriever (ss_username st1) in
         case get_conversational_rag_chain generate score r prompt (butlast (ss_messages st1)) db of
           (Inl e, db1) \<Rightarrow> (Inl e, st1, db1)
         | (Inr answer, db1) \<Rightarrow>
             (let st2 = st1\<lparr>ss_messages := ss_messages st1 @ [AIMessage answer]\<rparr>;
                  db2 = snd (save_history (ss_username st2) (ss_current_chat st2)
                               (ss_messages st2) now db1)
              in (Inr (Some answer), st2, db2))))"

section \<open>DocumentProcessor\<close>

record uploaded_file =
  name :: string
  buffer :: string

datatype loader = PyPDFLoader | TextLoader | Docx2txtLoader

text \<open>
  The file system and the loaders, as far as the method depends on them: whether
  writing the temporary file succeeds, what a loader returns for the file at a path with
  the content just written (\<open>None\<close>: it raises), and whether removing the file succeeds.
\<close>

record file_io =
  write_ok :: "string \<Rightarrow> string \<Rightarrow> bool"
  loader_load :: "loader \<Rightarrow> string \<Rightarrow> string \<Rightarrow> document list option"
  remove_ok :: "string \<Rightarrow> bool"

text \<open>\<^verbatim>\<open>str.lower\<close> on the letters A to Z.\<close>

definition lower_char :: "char \<Rightarrow> char" where
  "lower_char c =
     (if CHR ''A'' \<le> c \<and> c \<le> CHR ''Z'' then char_of (of_char c + (32::nat)) else c)"

definition lower :: "string \<Rightarrow> string" where
  "lower s = map lower_char s"

text \<open>
  \<^verbatim>\<open>Path(p).suffix\<close>: the path is cut at the slashes, empty and \<^verbatim>\<open>.\<close> components are
  dropped, and the name is the last component left. The suffix starts at the last dot of
  the name, provided that dot is neither its first nor its last character.
\<close>

fun split_on :: "char \<Rightarrow> string \<Rightarrow> string list" where
  "split_on s [] = [] # []"
| "split_on s (c # cs) =
     (if c = s then [] # split_on s cs
      else (case split_on s cs of
              [] \<Rightarrow> [c] # []
            | w # ws \<Rightarrow> (c # w) # ws))"

definition path_name :: "string \<Rightarrow> string" where
  "path_name p =
     (case filter (\<lambda>c. c \<noteq> [] \<and> c \<noteq> ''.'') (split_on CHR ''/'' p) of
        [] \<Rightarrow> []
      | c # cs \<Rightarrow> last (c # cs))"

definition path_suffix :: "string \<Rightarrow> string" where
  "path_suffix p =
     (let n = path_name p;
          ext = rev (takeWhile (\<lambda>c. c \<noteq> CHR ''.'') (rev n)) in
      if CHR ''.'' \<in> set n \<and> 0 < length n - length ext - 1 \<and> ext \<noteq> []
      then CHR ''.'' # ext
      else [])"

text \<open>The chain of comparisons on the extension.\<close>

definition select_loader :: "string \<Rightarrow> loader option" where
  "select_loader file_extension =
     (if file_extension = ''.pdf'' then Some PyPDFLoader
      else if file_extension = ''.txt'' then Some TextLoader
      else if file_extension = ''.docx'' then Some Docx2txtLoader
      else None)"

text \<open>
  The loop of \<^verbatim>\<open>process_uploaded_files\<close>, with \<open>docs\<close> the list built so far. Nothing in
  the method catches an exception, so a failing write, load or remove ends the call.
\<close>

fun process_loop :: "file_io \<Rightarrow> document list \<Rightarrow> uploaded_file list \<Rightarrow> error + document list" where
  "process_loop io docs [] = Inr docs"
| "process_loop io docs (file # files) =
     (let temp_filepath = ''./temp_'' @ name file in
      if \<not> write_ok io temp_filepath (buffer file) then Inl IOError
      else
        (case select_loader (lower (path_suffix temp_filepath)) of
           None \<Rightarrow>
             if remove_ok io temp_filepath then process_loop io docs files else Inl IOError
         | Some l \<Rightarrow>
             (case loader_load io l temp_filepath (buffer file) of
                None \<Rightarrow> Inl LoaderError
              | Some loaded \<Rightarrow>
                  if remove_ok io temp_filepath then process_loop io (docs @ loaded) files
                  else Inl IOError)))"

definition process_uploaded_files :: "file_io \<Rightarrow> uploaded_file list \<Rightarrow> error + document list" where
  "process_uploaded_files io uploaded_files = process_loop io [] uploaded_files"


text \<open>
  For stating what the loop returns: the loader chosen for a file, whether every step
  for the file succeeds, and the documents the file contributes.
\<close>

definition file_loader :: "uploaded_file \<Rightarrow> loader option" where
  "file_loader file = select_loader (lower (path_suffix (''./temp_'' @ name file)))"

definition file_ok :: "file_io \<Rightarrow> uploaded_file \<Rightarrow> bool" where
  "file_ok io file =
     (write_ok io (''./temp_'' @ name file) (buffer file) \<and>
      remove_ok io (''./temp_'' @ name file) \<and>
      (case file_loader file of
         None \<Rightarrow> True
       | Some l \<Rightarrow> loader_load io l (''./temp_'' @ name file) (buffer file) \<noteq> None))"

definition file_documents :: "file_io \<Rightarrow> uploaded_file \<Rightarrow> document list" where
  "file_documents io file =
     (case file_loader file of
        None \<Rightarrow> []
      | Some l \<Rightarrow>
          (case loader_load io l (''./temp_'' @ name file) (buffer file) of
             None \<Rightarrow> []
           | Some loaded \<Rightarrow> loaded))"

section \<open>Example data\<close>

definition ex_io :: file_io where
  "ex_io =
     \<lparr>write_ok = (\<lambda>p c. True),
      loader_load = (\<lambda>l p c. if p = ''./temp_bad.txt'' then None
                              else Some [\<lparr>page_content = c, metadata = Some [(''source'', p)]\<rparr>]),
      remove_ok = (\<lambda>p. True)\<rparr>"


text \<open>
  Two users who each have a chat called X and a chunk of a file called report.pdf; the
  argument of \<open>ex_db\<close> is the list of request outcomes.
\<close>

definition ex_chats :: "chat_row list" where
  "ex_chats =
     [\<lparr>username = ''ann'', chat_name = ''X'',
       messages = [\<lparr>msg_type = ''human'', content = ''q''\<rparr>, \<lparr>msg_type = ''ai'', content = ''a''\<rparr>],
       created_at = Some ''t0'', updated_at = Some ''t0''\<rparr>,
      \<lparr>username = ''bob'', chat_name = ''X'', messages = [],
       created_at = None, updated_at = None\<rparr>]"

definition ex_documents :: "document list" where
  "ex_documents =
     [\<lparr>page_content = ''ann text'',
       metadata = Some [(''source'', ''/tmp/report.pdf''), (''username'', ''ann'')]\<rparr>,
      \<lparr>page_content = ''bob text'',
       metadata = Some [(''source'', ''/tmp/report.pdf''), (''username'', ''bob'')]\<rparr>]"

definition ex_db :: "bool list \<Rightarrow> database" where
  "ex_db fs = \<lparr>chats = ex_chats, documents = ex_documents, faults = fs\<rparr>"

definition ex_score :: "string \<Rightarrow> document \<Rightarrow> int" where
  "ex_score q d = int (length (page_content d))"

definition ex_generate :: "string \<Rightarrow> message list \<Rightarrow> string \<Rightarrow> error + string" where
  "ex_generate context history question = Inr (question @ ''|'' @ context)"

definition ex_session :: session_state where
  "ex_session =
     \<lparr>ss_username = ''ann'', ss_current_chat = ''X'',
      ss_messages = [HumanMessage ''q'', AIMessage ''a'']\<rparr>"

section \<open>Properties\<close>

lemma execute_ok: "fst (execute db) = (\<not> raises 0 db)"
  by (simp add: execute_def raises_def split: list.splits)

lemma execute_chats: "chats (snd (execute db)) = chats db"
  by (simp add: execute_def split: list.splits)

lemma execute_documents: "documents (snd (execute db)) = documents db"
  by (simp add: execute_def split: list.splits)

lemma execute_raises: "raises n (snd (execute db)) = raises (Suc n) db"
  by (simp add: execute_def raises_def split: list.splits)

lemma execute_cases:
  obtains db1 where "execute db = (\<not> raises 0 db, db1)" "chats db1 = chats db"
    "documents db1 = documents db" "\<And>n. raises n db1 = raises (Suc n) db"
  using execute_ok [of db] execute_chats [of db] execute_documents [of db] execute_raises [of _ db]
  by (cases "execute db") auto

lemma from_to_json: "from_json (to_json m) = m"
  by (cases m) (simp_all add: from_json_def)

lemma map_from_to_json: "map from_json (map to_json ms) = ms"
  by (induction ms) (simp_all add: from_to_json)

lemma select_chat_map:
  assumes "\<And>r. is_chat u x (f r) = is_chat u x r"
  shows "select_chat u x (map f rows) = map f (select_chat u x rows)"
  using assms by (induction rows) (simp_all add: select_chat_def)

lemma select_upsert_absent:
  assumes "select_chat u x rows = []"
  shows "select_chat u x (upsert_chat u x ms ts rows) =
           [\<lparr>username = u, chat_name = x, messages = ms, created_at = None, updated_at = ts\<rparr>]"
  using assms by (simp add: upsert_chat_def select_chat_def is_chat_def)

lemma select_upsert_present:
  assumes "select_chat u x rows \<noteq> []"
  shows "select_chat u x (upsert_chat u x ms ts rows) =
           map (\<lambda>r. r\<lparr>messages := ms,
                        updated_at := (case ts of None \<Rightarrow> updated_at r | Some t \<Rightarrow> Some t)\<rparr>)
               (select_chat u x rows)"
proof -
  let ?g = "\<lambda>r. r\<lparr>messages := ms,
                    updated_at := (case ts of None \<Rightarrow> updated_at r | Some t \<Rightarrow> Some t)\<rparr>"
  let ?f = "\<lambda>r. if is_chat u x r then ?g r else r"
  have "select_chat u x (map ?f rows) = map ?f (select_chat u x rows)"
    by (rule select_chat_map) (simp add: is_chat_def)
  also have "\<dots> = map ?g (select_chat u x rows)"
    by (rule map_cong) (simp_all add: select_chat_def)
  finally show ?thesis using assms by (simp add: upsert_chat_def)
qed

lemma select_upsert:
  obtains r rs where "select_chat u x (upsert_chat u x ms ts rows) = r # rs" "messages r = ms"
proof (cases "select_chat u x rows")
  case Nil
  then show ?thesis using that select_upsert_absent [of u x rows ms ts] by simp
next
  case (Cons a as)
  then show ?thesis using that select_upsert_present [of u x rows ms ts] by simp
qed

lemma load_after_upsert:
  assumes "chats db = upsert_chat u x (map to_json msgs) ts rows" "\<not> raises 0 db"
  shows "fst (load_history u x db) = msgs"
proof -
  obtain db1 where e: "execute db = (\<not> raises 0 db, db1)" "chats db1 = chats db"
    "documents db1 = documents db" "\<And>n. raises n db1 = raises (Suc n) db"
    by (rule execute_cases [of db]) blast
  obtain r rs where sel: "select_chat u x (chats db1) = r # rs" "messages r = map to_json msgs"
    using select_upsert [of u x "map to_json msgs" ts rows] assms(1) e(2) by metis
  show ?thesis
    using assms(2) e sel map_from_to_json [of msgs] by (simp add: load_history_def del: map_map)
qed

text \<open>
  Claim C4. Saving a message sequence for a user and chat name and then loading that
  chat returns the sequence itself: the same messages with their roles and contents, in
  the same order. The save goes through when one of its two upsert attempts is answered,
  and the load when its select is answered.
\<close>

theorem save_then_load:
  assumes "\<not> (raises 0 db \<and> raises 1 db)"
    and "\<not> raises 0 (snd (save_history u x msgs now db))"
  shows "fst (load_history u x (snd (save_history u x msgs now db))) = msgs"
proof -
  obtain db1 where e1: "execute db = (\<not> raises 0 db, db1)" "chats db1 = chats db"
    "documents db1 = documents db" "\<And>n. raises n db1 = raises (Suc n) db"
    by (rule execute_cases [of db]) blast
  obtain db2 where e2: "execute db1 = (\<not> raises 0 db1, db2)" "chats db2 = chats db1"
    "documents db2 = documents db1" "\<And>n. raises n db2 = raises (Suc n) db1"
    by (rule execute_cases [of db1]) blast
  show ?thesis
  proof (cases "raises 0 db")
    case False
    then have s: "save_history u x msgs now db =
        (Inr (), db1\<lparr>chats := upsert_chat u x (map to_json msgs) (Some now) (chats db1)\<rparr>)"
      using e1 by (simp add: save_history_def)
    show ?thesis
      using assms(2) unfolding s by (intro load_after_upsert [where ts = "Some now" and rows = "chats db1"]) simp_all
  next
    case True
    with assms(1) e1(4) have "\<not> raises 0 db1" by simp
    with True have s: "save_history u x msgs now db =
        (Inr (), db2\<lparr>chats := upsert_chat u x (map to_json msgs) None (chats db2)\<rparr>)"
      using e1 e2 by (simp add: save_history_def)
    show ?thesis
      using assms(2) unfolding s by (intro load_after_upsert [where ts = None and rows = "chats db2"]) simp_all
  qed
qed


lemma execute_elim:
  assumes "execute db = (ok, db1)"
  shows "ok = (\<not> raises 0 db) \<and> chats db1 = chats db \<and> documents db1 = documents db \<and>
         (\<forall>n. raises n db1 = raises (Suc n) db)"
  using assms execute_ok [of db] execute_chats [of db] execute_documents [of db]
    execute_raises [of _ db] by simp

lemma select_append:
  "select_chat u x (rows @ rows') = select_chat u x rows @ select_chat u x rows'"
  by (simp add: select_chat_def)

lemma select_new_chat_row: "select_chat u x [new_chat_row u x c t] = [new_chat_row u x c t]"
  by (simp add: select_chat_def is_chat_def new_chat_row_def)

lemma create_existing:
  assumes "select_chat u x (chats db) \<noteq> []"
  shows "\<not> fst (create_new_chat u x t1 t2 db) \<and> chats (snd (create_new_chat u x t1 t2 db)) = chats db"
  using assms
  by (auto simp: create_new_chat_def split: prod.splits dest!: execute_elim)

lemma create_failing:
  assumes "raises 0 db \<or> (raises 1 db \<and> raises 2 db)"
  shows "\<not> fst (create_new_chat u x t1 t2 db) \<and> chats (snd (create_new_chat u x t1 t2 db)) = chats db"
  using assms
  by (auto simp: create_new_chat_def numeral_2_eq_2 split: prod.splits dest!: execute_elim)

lemma create_absent:
  assumes "select_chat u x (chats db) = []" "\<not> raises 0 db" "\<not> (raises 1 db \<and> raises 2 db)"
  shows "fst (create_new_chat u x t1 t2 db) \<and>
         (\<exists>c t. chats (snd (create_new_chat u x t1 t2 db)) = chats db @ [new_chat_row u x c t])"
  using assms
  by (auto simp: create_new_chat_def numeral_2_eq_2 split: prod.splits dest!: execute_elim)

lemma chat_count_append:
  "chats db' = chats db @ [new_chat_row u x c t] \<Longrightarrow> chat_count u db' = chat_count u db + 1"
  by (simp add: chat_count_def new_chat_row_def)

text \<open>
  Claim C5. When the user already has a chat of that name, \<^verbatim>\<open>create_new_chat\<close> returns
  false and leaves the rows as they are. When there is none and the store answers the
  select and one of the two insert attempts, it returns true and appends one row for
  that user and name with an empty message list, so the user's chat count grows by
  exactly one; creating the same chat again then returns false and the count stays at
  one more than at the start.
\<close>

theorem create_new_chat_spec:
  "(select_chat u x (chats db) \<noteq> [] \<longrightarrow>
      \<not> fst (create_new_chat u x t1 t2 db) \<and>
      chats (snd (create_new_chat u x t1 t2 db)) = chats db) \<and>
   (select_chat u x (chats db) = [] \<and> \<not> raises 0 db \<and> \<not> (raises 1 db \<and> raises 2 db) \<longrightarrow>
      fst (create_new_chat u x t1 t2 db) \<and>
      (\<exists>row. chats (snd (create_new_chat u x t1 t2 db)) = chats db @ [row] \<and>
             username row = u \<and> chat_name row = x \<and> messages row = []) \<and>
      chat_count u (snd (create_new_chat u x t1 t2 db)) = chat_count u db + 1 \<and>
      \<not> fst (create_new_chat u x t3 t4 (snd (create_new_chat u x t1 t2 db))) \<and>
      chat_count u (snd (create_new_chat u x t3 t4 (snd (create_new_chat u x t1 t2 db))))
        = chat_count u db + 1)"
proof (intro conjI impI)
  assume "select_chat u x (chats db) \<noteq> []"
  then show "\<not> fst (create_new_chat u x t1 t2 db)"
    and "chats (snd (create_new_chat u x t1 t2 db)) = chats db"
    using create_existing by blast+
next
  let ?db' = "snd (create_new_chat u x t1 t2 db)"
  assume a: "select_chat u x (chats db) = [] \<and> \<not> raises 0 db \<and> \<not> (raises 1 db \<and> raises 2 db)"
  then obtain c t where ok: "fst (create_new_chat u x t1 t2 db)"
    and rows: "chats ?db' = chats db @ [new_chat_row u x c t]"
    using create_absent [of u x db t1 t2] by blast
  show "fst (create_new_chat u x t1 t2 db)" by (rule ok)
  show "\<exists>row. chats ?db' = chats db @ [row] \<and> username row = u \<and> chat_name row = x \<and> messages row = []"
    using rows by (auto simp: new_chat_row_def)
  show cnt: "chat_count u ?db' = chat_count u db + 1"
    using rows by (rule chat_count_append)
  have "select_chat u x (chats ?db') \<noteq> []"
    using rows by (simp add: select_append select_new_chat_row)
  then have again: "\<not> fst (create_new_chat u x t3 t4 ?db') \<and>
      chats (snd (create_new_chat u x t3 t4 ?db')) = chats ?db'"
    by (rule create_existing)
  then show "\<not> fst (create_new_chat u x t3 t4 ?db')" by simp
  from again cnt show "chat_count u (snd (create_new_chat u x t3 t4 ?db')) = chat_count u db + 1"
    by (simp add: chat_count_def)
qed


lemma rename_rejected:
  assumes "new = [] \<or> new = old \<or> select_chat u new (chats db) \<noteq> []"
  shows "\<not> fst (rename_chat u old new now db) \<and> chats (snd (rename_chat u old new now db)) = chats db"
  using assms
  by (auto simp: rename_chat_def split: prod.splits dest!: execute_elim)

lemma rename_accepted:
  assumes "new \<noteq> []" "new \<noteq> old" "select_chat u new (chats db) = []"
    "\<not> raises 0 db" "\<not> (raises 1 db \<and> raises 2 db)"
  shows "fst (rename_chat u old new now db) \<and>
         chats (snd (rename_chat u old new now db)) =
           update_chat_name u old new (if raises 1 db then None else Some now) (chats db)"
  using assms
  by (auto simp: rename_chat_def numeral_2_eq_2 split: prod.splits dest!: execute_elim)

lemma select_old_after_update:
  assumes "new \<noteq> old"
  shows "select_chat u old (update_chat_name u old new ts rows) = []"
  using assms by (induction rows) (auto simp: select_chat_def update_chat_name_def is_chat_def)

lemma select_new_after_update:
  assumes "select_chat u new rows = []"
  shows "map messages (select_chat u new (update_chat_name u old new ts rows)) =
         map messages (select_chat u old rows)"
  using assms
  by (induction rows) (auto simp: select_chat_def update_chat_name_def is_chat_def split: if_splits)

lemma update_absent:
  assumes "select_chat u old rows = []"
  shows "update_chat_name u old new ts rows = rows"
  using assms
  by (induction rows) (auto simp: select_chat_def update_chat_name_def split: if_splits)

lemma update_fields:
  "list_all2 (\<lambda>r r'. if is_chat u old r
                      then r' = r\<lparr>chat_name := new, updated_at := updated_at r'\<rparr>
                      else r' = r)
     rows (update_chat_name u old new ts rows)"
  by (induction rows) (auto simp: update_chat_name_def)

lemma load_history_eq:
  "fst (load_history u x db) =
     (if raises 0 db then []
      else (case select_chat u x (chats db) of [] \<Rightarrow> [] | r # _ \<Rightarrow> map from_json (messages r)))"
  by (auto simp: load_history_def split: prod.splits list.splits dest!: execute_elim)

lemma first_messages:
  assumes "map messages xs = map messages ys"
  shows "(case xs of [] \<Rightarrow> [] | r # _ \<Rightarrow> map from_json (messages r)) =
         (case ys of [] \<Rightarrow> [] | r # _ \<Rightarrow> map from_json (messages r))"
  using assms by (cases xs; cases ys) auto

text \<open>
  Claim C6, amended. \<^verbatim>\<open>rename_chat\<close> returns false and leaves the rows as they are when
  the new name is empty, equals the old name, or is the name of a chat the user already
  has. Otherwise, when the store answers the select and one of the two update attempts,
  it returns true and the rows are those of the update request, which carries
  \<^verbatim>\<open>updated_at\<close> when the first attempt goes through: every row is either untouched or,
  being the user's chat of the old name, differs from before in its name, which is the
  new one, and in \<^verbatim>\<open>updated_at\<close> at most; loading the old name afterwards gives the empty list, and loading the new name
  gives the messages that loading the old name gave before.
\<close>

theorem rename_chat_amended:
  "(new = [] \<or> new = old \<or> select_chat u new (chats db) \<noteq> [] \<longrightarrow>
      \<not> fst (rename_chat u old new now db) \<and>
      chats (snd (rename_chat u old new now db)) = chats db) \<and>
   (new \<noteq> [] \<and> new \<noteq> old \<and> select_chat u new (chats db) = [] \<and>
    \<not> raises 0 db \<and> \<not> (raises 1 db \<and> raises 2 db) \<longrightarrow>
      fst (rename_chat u old new now db) \<and>
      chats (snd (rename_chat u old new now db)) =
        update_chat_name u old new (if raises 1 db then None else Some now) (chats db) \<and>
      list_all2 (\<lambda>r r'. if is_chat u old r
                         then r' = r\<lparr>chat_name := new, updated_at := updated_at r'\<rparr>
                         else r' = r)
        (chats db) (chats (snd (rename_chat u old new now db))) \<and>
      fst (load_history u old (snd (rename_chat u old new now db))) = [] \<and>
      (\<not> raises 0 (snd (rename_chat u old new now db)) \<longrightarrow>
         fst (load_history u new (snd (rename_chat u old new now db)))
           = fst (load_history u old db)))"
proof (intro conjI impI)
  assume "new = [] \<or> new = old \<or> select_chat u new (chats db) \<noteq> []"
  then show "\<not> fst (rename_chat u old new now db)"
    and "chats (snd (rename_chat u old new now db)) = chats db"
    using rename_rejected by blast+
next
  let ?db' = "snd (rename_chat u old new now db)"
  assume a: "new \<noteq> [] \<and> new \<noteq> old \<and> select_chat u new (chats db) = [] \<and>
    \<not> raises 0 db \<and> \<not> (raises 1 db \<and> raises 2 db)"
  define ts where "ts = (if raises 1 db then None else Some now)"
  from a have ok: "fst (rename_chat u old new now db)"
    and rows: "chats ?db' = update_chat_name u old new ts (chats db)"
    unfolding ts_def using rename_accepted [of new old u db now] by blast+
  show "fst (rename_chat u old new now db)" by (rule ok)
  show "chats ?db' = update_chat_name u old new (if raises 1 db then None else Some now) (chats db)"
    using rows by (simp add: ts_def)
  show "list_all2 (\<lambda>r r'. if is_chat u old r
                         then r' = r\<lparr>chat_name := new, updated_at := updated_at r'\<rparr>
                         else r' = r) (chats db) (chats ?db')"
    unfolding rows by (rule update_fields)
  show "fst (load_history u old ?db') = []"
    using a by (simp add: load_history_eq rows select_old_after_update)
  {
    assume "\<not> raises 0 ?db'"
    moreover have "map messages (select_chat u new (chats ?db')) =
        map messages (select_chat u old (chats db))"
      unfolding rows using a by (intro select_new_after_update) simp
    ultimately show "fst (load_history u new ?db') = fst (load_history u old db)"
      using a first_messages by (simp add: load_history_eq)
  }
qed

text \<open>
  Claim C10. When the user has no chat of the old name and none of the new name, the new
  name is not empty and differs from the old one, and the store answers, \<^verbatim>\<open>rename_chat\<close>
  returns true although no row has changed.
\<close>

theorem rename_absent_chat_true:
  assumes "select_chat u old (chats db) = []" and "select_chat u new (chats db) = []"
    and "new \<noteq> []" and "new \<noteq> old"
    and "\<not> raises 0 db" and "\<not> (raises 1 db \<and> raises 2 db)"
  shows "fst (rename_chat u old new now db) \<and>
         chats (snd (rename_chat u old new now db)) = chats db"
proof -
  have "fst (rename_chat u old new now db)"
    and "chats (snd (rename_chat u old new now db)) =
      update_chat_name u old new (if raises 1 db then None else Some now) (chats db)"
    using rename_accepted [of new old u db now] assms by blast+
  then show ?thesis using assms(1) by (simp add: update_absent)
qed

lemma delete_chat_rows:
  "chats (snd (delete_chat u x db)) =
     (if raises 0 db then chats db else delete_rows u x (chats db))"
  by (auto simp: delete_chat_def split: prod.splits dest!: execute_elim)

lemma delete_rows_absent:
  "select_chat u x rows = [] \<Longrightarrow> delete_rows u x rows = rows"
  by (induction rows) (auto simp: select_chat_def delete_rows_def split: if_splits)

lemma select_delete_rows: "select_chat u x (delete_rows u x rows) = []"
  by (induction rows) (auto simp: select_chat_def delete_rows_def)

text \<open>
  Claim C9. \<^verbatim>\<open>delete_chat\<close> never raises. Deleting a chat the user does not have leaves
  the rows as they are. When the store answers the delete, exactly the rows of that user
  and chat name are removed, deleting the same chat once more changes nothing and does
  not raise either, and loading the chat afterwards returns the empty list.
\<close>

theorem delete_chat_spec:
  "fst (delete_chat u x db) = Inr () \<and>
   (select_chat u x (chats db) = [] \<longrightarrow> chats (snd (delete_chat u x db)) = chats db) \<and>
   (\<not> raises 0 db \<longrightarrow>
      chats (snd (delete_chat u x db)) = filter (\<lambda>r. \<not> is_chat u x r) (chats db) \<and>
      chats (snd (delete_chat u x (snd (delete_chat u x db)))) = chats (snd (delete_chat u x db)) \<and>
      fst (delete_chat u x (snd (delete_chat u x db))) = Inr () \<and>
      fst (load_history u x (snd (delete_chat u x db))) = [])"
proof (intro conjI impI)
  show "fst (delete_chat u x db) = Inr ()"
    by (simp add: delete_chat_def split: prod.splits)
  show "fst (delete_chat u x (snd (delete_chat u x db))) = Inr ()"
    by (simp add: delete_chat_def split: prod.splits)
next
  assume "select_chat u x (chats db) = []"
  then show "chats (snd (delete_chat u x db)) = chats db"
    by (simp add: delete_chat_rows delete_rows_absent)
next
  assume ok: "\<not> raises 0 db"
  then have rows: "chats (snd (delete_chat u x db)) = delete_rows u x (chats db)"
    by (simp add: delete_chat_rows)
  then show "chats (snd (delete_chat u x db)) = filter (\<lambda>r. \<not> is_chat u x r) (chats db)"
    by (simp add: delete_rows_def)
  show "chats (snd (delete_chat u x (snd (delete_chat u x db)))) = chats (snd (delete_chat u x db))"
    by (simp add: delete_chat_rows [of u x "snd (delete_chat u x db)"] rows
        delete_rows_absent select_delete_rows)
  show "fst (load_history u x (snd (delete_chat u x db))) = []"
    by (simp add: load_history_eq rows select_delete_rows)
qed

lemma save_history_result: "fst (save_history u x msgs now db) = Inr ()"
  by (simp add: save_history_def Let_def split: prod.splits)

lemma save_history_dropped:
  assumes "raises 0 db" "raises 1 db"
  shows "chats (snd (save_history u x msgs now db)) = chats db"
  using assms
  by (auto simp: save_history_def Let_def split: prod.splits dest!: execute_elim)


lemma set_username_owner: "metadata_get ''username'' (set_username u d) = Some u"
  by (simp add: metadata_get_def set_username_def update_conv')

lemma div_step: "0 < (n::nat) \<Longrightarrow> (n + 499) div 500 = Suc ((n - 500 + 499) div 500)"
proof (cases "500 \<le> n")
  case True
  then obtain m where "n = m + 500" by (metis le_add_diff_inverse2)
  then show ?thesis by simp
next
  case False
  assume "0 < n"
  with False have "(n + 499) div 500 = 1" by simp
  moreover from False have "n - 500 = 0" by simp
  ultimately show ?thesis by simp
qed

lemma div_small: "(n::nat) \<le> 500 \<Longrightarrow> (n + 499) div 500 \<le> 1"
proof -
  assume "n \<le> 500"
  then have "n + 499 < 2 * 500" by simp
  then have "(n + 499) div 500 < 2" by (rule less_mult_imp_div_less)
  then show ?thesis by simp
qed

lemma batch_count_step:
  assumes "rows \<noteq> []"
  shows "batch_count rows = Suc (batch_count (drop 500 rows))"
  using assms div_step [of "length rows"] by (simp add: batch_count_def)

lemma raises_documents [simp]: "raises n (db\<lparr>documents := ds\<rparr>) = raises n db"
  by (simp add: raises_def)

lemma add_vectors_result:
  "fst (add_vectors rows db) =
     (if \<exists>i < batch_count rows. raises i db then Inl StoreError else Inr ())"
proof (induction rows db rule: add_vectors.induct)
  case (1 rows db)
  show ?case
  proof (cases "rows = []")
    case True
    then show ?thesis by (simp add: add_vectors.simps batch_count_def)
  next
    case False
    obtain db1 where e: "execute db = (\<not> raises 0 db, db1)" "chats db1 = chats db"
      "documents db1 = documents db" "\<And>n. raises n db1 = raises (Suc n) db"
      by (rule execute_cases [of db]) blast
    show ?thesis
    proof (cases "raises 0 db")
      case True
      moreover have "0 < batch_count rows" using False by (simp add: batch_count_step)
      ultimately show ?thesis
        using False e by (auto simp: add_vectors.simps [of rows db])
    next
      case nofault: False
      let ?db' = "db1\<lparr>documents := documents db1 @ take 500 rows\<rparr>"
      have step: "add_vectors rows db = add_vectors (drop 500 rows) ?db'"
        using False nofault e by (simp add: add_vectors.simps [of rows db])
      have ih: "fst (add_vectors (drop 500 rows) ?db') =
          (if \<exists>i < batch_count (drop 500 rows). raises i ?db' then Inl StoreError else Inr ())"
        using "1.IH" [OF False _ _, of "(\<not> raises 0 db, db1)" "\<not> raises 0 db" db1] e nofault
        by simp
      have "(\<exists>i < batch_count (drop 500 rows). raises i ?db') =
          (\<exists>i < batch_count rows. raises i db)"
      proof
        assume "\<exists>i < batch_count (drop 500 rows). raises i ?db'"
        then obtain i where "i < batch_count (drop 500 rows)" "raises (Suc i) db"
          using e(4) by auto
        then show "\<exists>i < batch_count rows. raises i db"
          using batch_count_step [OF False] by (intro exI [of _ "Suc i"]) simp
      next
        assume "\<exists>i < batch_count rows. raises i db"
        then obtain i where i: "i < batch_count rows" "raises i db" by blast
        with nofault obtain j where "i = Suc j" by (cases i) auto
        with i show "\<exists>i < batch_count (drop 500 rows). raises i ?db'"
          using batch_count_step [OF False] e(4) by (intro exI [of _ j]) simp
      qed
      with step ih show ?thesis by simp
    qed
  qed
qed

lemma add_vectors_rows:
  "\<exists>n. documents (snd (add_vectors rows db)) = documents db @ take n rows"
proof (induction rows db rule: add_vectors.induct)
  case (1 rows db)
  show ?case
  proof (cases "rows = []")
    case True
    then show ?thesis by (simp add: add_vectors.simps)
  next
    case False
    obtain db1 where e: "execute db = (\<not> raises 0 db, db1)" "chats db1 = chats db"
      "documents db1 = documents db" "\<And>n. raises n db1 = raises (Suc n) db"
      by (rule execute_cases [of db]) blast
    show ?thesis
    proof (cases "raises 0 db")
      case True
      then have "documents (snd (add_vectors rows db)) = documents db @ take 0 rows"
        using False e by (simp add: add_vectors.simps [of rows db])
      then show ?thesis by blast
    next
      case nofault: False
      let ?db' = "db1\<lparr>documents := documents db1 @ take 500 rows\<rparr>"
      have step: "add_vectors rows db = add_vectors (drop 500 rows) ?db'"
        using False nofault e by (simp add: add_vectors.simps [of rows db])
      from "1.IH" [OF False _ _, of "(\<not> raises 0 db, db1)" "\<not> raises 0 db" db1] e nofault
      obtain n where n: "documents (snd (add_vectors (drop 500 rows) ?db')) =
          documents ?db' @ take n (drop 500 rows)"
        by auto
      have "take 500 rows @ take n (drop 500 rows) = take (500 + n) rows"
        by (simp add: take_add)
      with n step e(3) have "documents (snd (add_vectors rows db)) = documents db @ take (500 + n) rows"
        by simp
      then show ?thesis by blast
    qed
  qed
qed

lemma add_vectors_complete:
  assumes "fst (add_vectors rows db) = Inr ()"
  shows "documents (snd (add_vectors rows db)) = documents db @ rows"
  using assms
proof (induction rows db rule: add_vectors.induct)
  case (1 rows db)
  show ?case
  proof (cases "rows = []")
    case True
    then show ?thesis by (simp add: add_vectors.simps)
  next
    case False
    obtain db1 where e: "execute db = (\<not> raises 0 db, db1)" "chats db1 = chats db"
      "documents db1 = documents db" "\<And>n. raises n db1 = raises (Suc n) db"
      by (rule execute_cases [of db]) blast
    have nofault: "\<not> raises 0 db"
      using "1.prems" False e by (auto simp: add_vectors.simps [of rows db])
    let ?db' = "db1\<lparr>documents := documents db1 @ take 500 rows\<rparr>"
    have step: "add_vectors rows db = add_vectors (drop 500 rows) ?db'"
      using False nofault e by (simp add: add_vectors.simps [of rows db])
    from "1.IH" [OF False _ _, of "(\<not> raises 0 db, db1)" "\<not> raises 0 db" db1] e nofault
      "1.prems" step
    have "documents (snd (add_vectors (drop 500 rows) ?db')) = documents ?db' @ drop 500 rows"
      by simp
    with step e(3) show ?thesis by simp
  qed
qed

lemma add_documents_result:
  "fst (add_documents sp u docs db) =
     (if docs \<noteq> [] \<and> (\<exists>i < batch_count (sp docs). raises i db) then Inl StoreError
      else Inr ())"
  by (simp add: add_documents_def add_vectors_result batch_count_def)

lemma add_documents_rows:
  "\<exists>n. documents (snd (add_documents sp u docs db)) =
         documents db @ take n (map (set_username u) (sp docs))"
proof (cases "docs = []")
  case True
  then have "documents (snd (add_documents sp u docs db)) =
      documents db @ take 0 (map (set_username u) (sp docs))"
    by (simp add: add_documents_def)
  then show ?thesis by blast
next
  case False
  then show ?thesis
    using add_vectors_rows [of "map (set_username u) (sp docs)" db]
    by (simp add: add_documents_def)
qed

lemma add_documents_complete:
  assumes "docs \<noteq> []" "fst (add_documents sp u docs db) = Inr ()"
  shows "documents (snd (add_documents sp u docs db)) =
         documents db @ map (set_username u) (sp docs)"
  using assms add_vectors_complete [of "map (set_username u) (sp docs)" db]
  by (simp add: add_documents_def)

text \<open>
  A write of 501 splits whose second batch raises: the call raises, and the 500 rows of
  the first batch stay written.
\<close>

lemma add_documents_partial_write:
  "fst (add_documents (\<lambda>ds. replicate 501 (hd ds)) ''ann'' ex_documents (ex_db [False, True]))
     = Inl StoreError \<and>
   documents (snd (add_documents (\<lambda>ds. replicate 501 (hd ds)) ''ann'' ex_documents
                    (ex_db [False, True])))
     = ex_documents @ replicate 500 (set_username ''ann'' (hd ex_documents))"
proof -
  let ?x = "set_username ''ann'' (hd ex_documents)"
  let ?db1 = "\<lparr>chats = ex_chats, documents = ex_documents @ replicate 500 ?x, faults = [True]\<rparr>"
  have two: "add_vectors (replicate 1 ?x) ?db1 =
      (Inl StoreError, \<lparr>chats = ex_chats, documents = ex_documents @ replicate 500 ?x, faults = []\<rparr>)"
    by (subst add_vectors.simps) (simp add: execute_def)
  have one: "add_vectors (replicate 501 ?x) (ex_db [False, True]) = add_vectors (replicate 1 ?x) ?db1"
    by (subst add_vectors.simps) (simp add: execute_def ex_db_def)
  have "add_documents (\<lambda>ds. replicate 501 (hd ds)) ''ann'' ex_documents (ex_db [False, True]) =
      add_vectors (replicate 501 ?x) (ex_db [False, True])"
    by (simp add: add_documents_def ex_documents_def)
  with one two show ?thesis by simp
qed

text \<open>
  Claim C2. \<^verbatim>\<open>add_documents\<close> on the empty list returns at once and leaves the store as
  it is. On any input, what it adds to the table is appended to the rows already there,
  and every added row carries the acting user under the metadata key \<^verbatim>\<open>username\<close>,
  also when the write stops at a failing batch. When the store answers every batch of
  the write (the first request, for up to 500 splits), or whenever the call returns
  normally, the added rows are exactly the splits, each tagged with that user.
\<close>

theorem add_documents_tags_owner:
  "add_documents sp u [] db = (Inr (), db) \<and>
   (\<exists>new. documents (snd (add_documents sp u docs db)) = documents db @ new \<and>
          (\<forall>d \<in> set new. metadata_get ''username'' d = Some u)) \<and>
   (docs \<noteq> [] \<and> (\<forall>i < batch_count (sp docs). \<not> raises i db) \<longrightarrow>
      fst (add_documents sp u docs db) = Inr () \<and>
      documents (snd (add_documents sp u docs db)) = documents db @ map (set_username u) (sp docs)) \<and>
   (docs \<noteq> [] \<and> length (sp docs) \<le> 500 \<and> \<not> raises 0 db \<longrightarrow>
      fst (add_documents sp u docs db) = Inr () \<and>
      documents (snd (add_documents sp u docs db)) = documents db @ map (set_username u) (sp docs)) \<and>
   (docs \<noteq> [] \<and> fst (add_documents sp u docs db) = Inr () \<longrightarrow>
      documents (snd (add_documents sp u docs db)) = documents db @ map (set_username u) (sp docs))"
proof (intro conjI impI)
  show "add_documents sp u [] db = (Inr (), db)"
    by (simp add: add_documents_def)
  show "\<exists>new. documents (snd (add_documents sp u docs db)) = documents db @ new \<and>
          (\<forall>d \<in> set new. metadata_get ''username'' d = Some u)"
  proof -
    obtain n where n: "documents (snd (add_documents sp u docs db)) =
        documents db @ take n (map (set_username u) (sp docs))"
      using add_documents_rows by blast
    have "\<forall>d \<in> set (take n (map (set_username u) (sp docs))). metadata_get ''username'' d = Some u"
      by (auto dest!: in_set_takeD simp: set_username_owner)
    with n show ?thesis by blast
  qed
next
  assume a: "docs \<noteq> [] \<and> (\<forall>i < batch_count (sp docs). \<not> raises i db)"
  then show ok: "fst (add_documents sp u docs db) = Inr ()"
    by (simp add: add_documents_result)
  from a ok show "documents (snd (add_documents sp u docs db)) =
      documents db @ map (set_username u) (sp docs)"
    by (simp add: add_documents_complete)
next
  assume a: "docs \<noteq> [] \<and> length (sp docs) \<le> 500 \<and> \<not> raises 0 db"
  then have one: "batch_count (sp docs) \<le> 1"
    unfolding batch_count_def by (intro div_small) simp
  have "\<forall>i < batch_count (sp docs). \<not> raises i db"
  proof (intro allI impI)
    fix i assume "i < batch_count (sp docs)"
    with one have "i = 0" by simp
    with a show "\<not> raises i db" by simp
  qed
  with a show ok: "fst (add_documents sp u docs db) = Inr ()"
    by (simp add: add_documents_result)
  from a ok show "documents (snd (add_documents sp u docs db)) =
      documents db @ map (set_username u) (sp docs)"
    by (simp add: add_documents_complete)
next
  assume "docs \<noteq> [] \<and> fst (add_documents sp u docs db) = Inr ()"
  then show "documents (snd (add_documents sp u docs db)) =
      documents db @ map (set_username u) (sp docs)"
    by (simp add: add_documents_complete)
qed

lemma contains_username: "contains_metadata [(''username'', u)] d = (metadata_get ''username'' d = Some u)"
  by (simp add: contains_metadata_def metadata_get_def split: option.splits)

lemma similarity_search_subset:
  "set (similarity_search score r q rows) \<subseteq> {d \<in> set rows. contains_metadata (search_filter r) d}"
proof -
  have "set (similarity_search score r q rows) \<subseteq>
      set (sort_key (\<lambda>d. - score q d) (filter (contains_metadata (search_filter r)) rows))"
    unfolding similarity_search_def by (rule set_take_subset)
  then show ?thesis by auto
qed

lemma filter_owner_others:
  assumes "u1 \<noteq> u2"
  shows "filter (contains_metadata [(''username'', u1)])
           (filter (\<lambda>d. metadata_get ''username'' d \<noteq> Some u2) rows) =
         filter (contains_metadata [(''username'', u1)]) rows"
  using assms by (induction rows) (auto simp: contains_username)

lemma get_document_sources_eq:
  "fst (get_document_sources u db) =
     (if raises 0 db then []
      else (let data = filter (contains_metadata [(''username'', u)]) (documents db) in
            if data = [] then []
            else (case collect_sources u data of None \<Rightarrow> [] | Some sources \<Rightarrow> sort (remdups sources))))"
  by (auto simp: get_document_sources_def Let_def split: prod.splits option.splits dest!: execute_elim)

lemma collect_sources_origin:
  assumes "collect_sources u items = Some sources" "n \<in> set sources"
  shows "\<exists>d \<in> set items. metadata_get ''username'' d = Some u \<and>
           (\<exists>s. metadata_get ''source'' d = Some s \<and> n = basename s)"
  using assms
proof (induction items arbitrary: sources)
  case Nil
  then show ?case by simp
next
  case (Cons item items)
  from Cons.prems(1) obtain m rest where m: "metadata item = Some m"
    and rest: "collect_sources u items = Some rest"
    by (auto split: option.splits)
  show ?case
  proof (cases "n \<in> set rest")
    case True
    then show ?thesis using Cons.IH [OF rest] by auto
  next
    case False
    with Cons.prems m rest
    have "map_of m ''username'' = Some u \<and> (\<exists>s. map_of m ''source'' = Some s \<and> n = basename s)"
      by (auto split: option.splits if_splits)
    then show ?thesis using m by (auto simp: metadata_get_def)
  qed
qed

text \<open>
  Claim C1. For two distinct users, the retriever built for the first returns only rows
  of the table whose metadata names the first user, never one that names the second, and
  returns the same when the second user's rows are taken out of the table. Every name in
  the first user's source listing is the basename of the source of a row that names the
  first user, and the listing is the same when the second user's rows are taken out.
  File names play no part in this, so it holds when both users have chunks of a file of
  the same name.
\<close>

theorem no_cross_user_retrieval:
  assumes "u1 \<noteq> u2"
  shows "(\<forall>d \<in> set (similarity_search score (as_retriever u1) q (documents db)).
            d \<in> set (documents db) \<and> metadata_get ''username'' d = Some u1 \<and>
            metadata_get ''username'' d \<noteq> Some u2) \<and>
         (\<forall>docs. fst (get_relevant_documents score (as_retriever u1) q db) = Inr docs \<longrightarrow>
            (\<forall>d \<in> set docs. metadata_get ''username'' d \<noteq> Some u2)) \<and>
         similarity_search score (as_retriever u1) q
           (filter (\<lambda>d. metadata_get ''username'' d \<noteq> Some u2) (documents db))
           = similarity_search score (as_retriever u1) q (documents db) \<and>
         (\<forall>n \<in> set (fst (get_document_sources u1 db)).
            \<exists>d \<in> set (documents db). metadata_get ''username'' d = Some u1 \<and>
              metadata_get ''username'' d \<noteq> Some u2 \<and>
              (\<exists>s. metadata_get ''source'' d = Some s \<and> n = basename s)) \<and>
         fst (get_document_sources u1
               (db\<lparr>documents := filter (\<lambda>d. metadata_get ''username'' d \<noteq> Some u2) (documents db)\<rparr>))
           = fst (get_document_sources u1 db)"
proof (intro conjI)
  have sub: "set (similarity_search score (as_retriever u1) q (documents db)) \<subseteq>
      {d \<in> set (documents db). metadata_get ''username'' d = Some u1}"
    using similarity_search_subset [of score "as_retriever u1" q "documents db"]
    by (simp add: as_retriever_def contains_username)
  show search: "\<forall>d \<in> set (similarity_search score (as_retriever u1) q (documents db)).
            d \<in> set (documents db) \<and> metadata_get ''username'' d = Some u1 \<and>
            metadata_get ''username'' d \<noteq> Some u2"
    using sub assms by auto
  show "\<forall>docs. fst (get_relevant_documents score (as_retriever u1) q db) = Inr docs \<longrightarrow>
            (\<forall>d \<in> set docs. metadata_get ''username'' d \<noteq> Some u2)"
    using search
    by (auto simp: get_relevant_documents_def split: prod.splits if_splits dest!: execute_elim)
  show "similarity_search score (as_retriever u1) q
           (filter (\<lambda>d. metadata_get ''username'' d \<noteq> Some u2) (documents db))
           = similarity_search score (as_retriever u1) q (documents db)"
    using filter_owner_others [OF assms, of "documents db"]
    by (simp add: similarity_search_def as_retriever_def del: filter_filter)
  show "\<forall>n \<in> set (fst (get_document_sources u1 db)).
            \<exists>d \<in> set (documents db). metadata_get ''username'' d = Some u1 \<and>
              metadata_get ''username'' d \<noteq> Some u2 \<and>
              (\<exists>s. metadata_get ''source'' d = Some s \<and> n = basename s)"
  proof
    fix n assume n: "n \<in> set (fst (get_document_sources u1 db))"
    let ?data = "filter (contains_metadata [(''username'', u1)]) (documents db)"
    from n obtain sources where "collect_sources u1 ?data = Some sources" "n \<in> set sources"
      by (cases "collect_sources u1 ?data")
        (auto simp: get_document_sources_eq Let_def split: if_splits)
    then obtain d where "d \<in> set ?data" "metadata_get ''username'' d = Some u1"
      "\<exists>s. metadata_get ''source'' d = Some s \<and> n = basename s"
      using collect_sources_origin by blast
    then show "\<exists>d \<in> set (documents db). metadata_get ''username'' d = Some u1 \<and>
              metadata_get ''username'' d \<noteq> Some u2 \<and>
              (\<exists>s. metadata_get ''source'' d = Some s \<and> n = basename s)"
      using assms by auto
  qed
  show "fst (get_document_sources u1
               (db\<lparr>documents := filter (\<lambda>d. metadata_get ''username'' d \<noteq> Some u2) (documents db)\<rparr>))
           = fst (get_document_sources u1 db)"
    using filter_owner_others [OF assms, of "documents db"]
    by (simp add: get_document_sources_eq del: filter_filter)
qed


lemma process_loop_ok:
  assumes "list_all (file_ok io) files"
  shows "process_loop io docs files = Inr (docs @ concat (map (file_documents io) files))"
  using assms
proof (induction files arbitrary: docs)
  case Nil
  then show ?case by simp
next
  case (Cons f files)
  then show ?case
    by (auto simp: file_ok_def file_documents_def file_loader_def Let_def split: option.splits)
qed

lemma process_loop_fails:
  assumes "\<not> list_all (file_ok io) files"
  shows "\<exists>e. process_loop io docs files = Inl e"
  using assms
proof (induction files arbitrary: docs)
  case Nil
  then show ?case by simp
next
  case (Cons f files)
  show ?case
  proof (cases "file_ok io f")
    case True
    with Cons.prems have "\<not> list_all (file_ok io) files" by simp
    then have "\<And>ds. \<exists>e. process_loop io ds files = Inl e" by (rule Cons.IH)
    with True show ?thesis
      by (auto simp: file_ok_def file_loader_def Let_def split: option.splits)
  next
    case False
    then show ?thesis
      by (auto simp: file_ok_def file_loader_def Let_def split: option.splits)
  qed
qed

text \<open>
  Claim C7, amended. When writing, loading and removing succeed for every file of the
  batch, \<^verbatim>\<open>process_uploaded_files\<close> returns the documents of the files in input order,
  where a file whose extension is none of pdf, txt and docx contributes no document and
  raises no error. When one of these steps fails for some file of the batch, the call
  raises and returns no documents.
\<close>

theorem process_uploaded_files_amended:
  "(list_all (file_ok io) files \<longrightarrow>
      process_uploaded_files io files = Inr (concat (map (file_documents io) files))) \<and>
   (\<not> list_all (file_ok io) files \<longrightarrow> (\<exists>e. process_uploaded_files io files = Inl e)) \<and>
   (\<forall>file \<in> set files.
      lower (path_suffix (''./temp_'' @ name file)) \<notin> {''.pdf'', ''.txt'', ''.docx''} \<longrightarrow>
      file_documents io file = [])"
proof (intro conjI impI ballI)
  assume "list_all (file_ok io) files"
  then show "process_uploaded_files io files = Inr (concat (map (file_documents io) files))"
    by (simp add: process_uploaded_files_def process_loop_ok)
next
  assume "\<not> list_all (file_ok io) files"
  then show "\<exists>e. process_uploaded_files io files = Inl e"
    unfolding process_uploaded_files_def by (rule process_loop_fails)
next
  fix f :: uploaded_file
  assume "lower (path_suffix (''./temp_'' @ name f)) \<notin> {''.pdf'', ''.txt'', ''.docx''}"
  then show "file_documents io f = []"
    by (simp add: file_documents_def file_loader_def select_loader_def)
qed

lemma suffix_examples:
  "lower (path_suffix ''./temp_bad.txt'') = ''.txt''"
  "lower (path_suffix ''./temp_good.txt'') = ''.txt''"
  "lower (path_suffix ''./temp_notes.TXT'') = ''.txt''"
  "lower (path_suffix ''./temp_data.csv'') = ''.csv''"
  by code_simp+

text \<open>
  C7 as stated fails: with a text file that the loader cannot read in front of a good
  one, the call raises, although the good file alone yields its document.
\<close>

theorem process_aborts_counterexample:
  "process_uploaded_files ex_io
     [\<lparr>name = ''bad.txt'', buffer = ''x''\<rparr>, \<lparr>name = ''good.txt'', buffer = ''hello''\<rparr>]
     = Inl LoaderError \<and>
   process_uploaded_files ex_io [\<lparr>name = ''good.txt'', buffer = ''hello''\<rparr>]
     = Inr [\<lparr>page_content = ''hello'', metadata = Some [(''source'', ''./temp_good.txt'')]\<rparr>]"
  by (simp add: process_uploaded_files_def ex_io_def suffix_examples select_loader_def)

text \<open>
  C7, amended, at a batch of a csv file and a text file, and at a file whose loading
  fails.
\<close>

theorem process_uploaded_files_amended_witness:
  "list_all (file_ok ex_io)
     [\<lparr>name = ''data.csv'', buffer = ''1,2''\<rparr>, \<lparr>name = ''notes.TXT'', buffer = ''hello''\<rparr>] \<and>
   process_uploaded_files ex_io
     [\<lparr>name = ''data.csv'', buffer = ''1,2''\<rparr>, \<lparr>name = ''notes.TXT'', buffer = ''hello''\<rparr>]
     = Inr [\<lparr>page_content = ''hello'', metadata = Some [(''source'', ''./temp_notes.TXT'')]\<rparr>] \<and>
   \<not> list_all (file_ok ex_io) [\<lparr>name = ''bad.txt'', buffer = ''x''\<rparr>] \<and>
   (\<exists>e. process_uploaded_files ex_io [\<lparr>name = ''bad.txt'', buffer = ''x''\<rparr>] = Inl e)"
proof -
  let ?batch = "[\<lparr>name = ''data.csv'', buffer = ''1,2''\<rparr>, \<lparr>name = ''notes.TXT'', buffer = ''hello''\<rparr>]"
  let ?bad = "[\<lparr>name = ''bad.txt'', buffer = ''x''\<rparr>]"
  have ok: "list_all (file_ok ex_io) ?batch"
    by (simp add: file_ok_def file_loader_def ex_io_def suffix_examples select_loader_def)
  have docs: "concat (map (file_documents ex_io) ?batch) =
      [\<lparr>page_content = ''hello'', metadata = Some [(''source'', ''./temp_notes.TXT'')]\<rparr>]"
    by (simp add: file_documents_def file_loader_def ex_io_def suffix_examples select_loader_def)
  have bad: "\<not> list_all (file_ok ex_io) ?bad"
    by (simp add: file_ok_def file_loader_def ex_io_def suffix_examples select_loader_def)
  from process_uploaded_files_amended [of ex_io ?batch] ok docs
  have 1: "process_uploaded_files ex_io ?batch =
      Inr [\<lparr>page_content = ''hello'', metadata = Some [(''source'', ''./temp_notes.TXT'')]\<rparr>]"
    by simp
  from process_uploaded_files_amended [of ex_io ?bad] bad
  have 2: "\<exists>e. process_uploaded_files ex_io ?bad = Inl e" by blast
  from ok 1 bad 2 show ?thesis by blast
qed

lemma get_relevant_documents_eq:
  "fst (get_relevant_documents score r q db) =
     (if raises 0 db then Inl StoreError else Inr (similarity_search score r q (documents db)))"
  by (auto simp: get_relevant_documents_def split: prod.splits dest!: execute_elim)

lemma chain_eq:
  "fst (get_conversational_rag_chain generate score r q h db) =
     (if raises 0 db then Inl StoreError
      else generate (build_context (similarity_search score r q (documents db))) h q)"
  using get_relevant_documents_eq [of score r q db]
  by (auto simp: get_conversational_rag_chain_def split: prod.splits sum.splits)

lemma chat_input_eq:
  assumes "prompt \<noteq> []"
  shows "fst (chat_input generate score prompt now st db) =
     map_sum id Some
       (fst (get_conversational_rag_chain generate score (as_retriever (ss_username st)) prompt
              (ss_messages st) db))"
  using assms
  by (auto simp: chat_input_def Let_def split: prod.splits sum.splits)

lemma similarity_search_none:
  assumes "filter (contains_metadata (search_filter r)) rows = []"
  shows "similarity_search score r q rows = []"
  using assms by (simp add: similarity_search_def)

text \<open>
  Claim C8. For a non-empty question, with the store answering, the chat input returns
  what the language model generates from three arguments: the context built from the
  result of the similarity search for the question with the filter on the session's user
  and \<open>k = 5\<close>, the messages of the session before the question, and the question. When
  no row of the table names that user, the model is invoked with the empty context and
  its result is returned in the same way.
\<close>

theorem answer_steps:
  assumes "prompt \<noteq> []" and "\<not> raises 0 db"
  shows "fst (chat_input generate score prompt now st db) =
           map_sum id Some
             (generate
                (build_context
                   (similarity_search score
                      \<lparr>search_filter = [(''username'', ss_username st)], search_k = 5\<rparr>
                      prompt (documents db)))
                (ss_messages st) prompt) \<and>
         (filter (\<lambda>d. metadata_get ''username'' d = Some (ss_username st)) (documents db) = [] \<longrightarrow>
            fst (chat_input generate score prompt now st db) =
              map_sum id Some (generate [] (ss_messages st) prompt))"
proof -
  let ?r = "\<lparr>search_filter = [(''username'', ss_username st)], search_k = 5\<rparr>"
  have main: "fst (chat_input generate score prompt now st db) =
      map_sum id Some
        (generate (build_context (similarity_search score ?r prompt (documents db)))
           (ss_messages st) prompt)"
    using assms by (simp add: chat_input_eq chain_eq as_retriever_def)
  {
    assume "filter (\<lambda>d. metadata_get ''username'' d = Some (ss_username st)) (documents db) = []"
    then have "filter (contains_metadata (search_filter ?r)) (documents db) = []"
      by (simp add: contains_username [abs_def])
    then have "similarity_search score ?r prompt (documents db) = []"
      by (rule similarity_search_none)
    with main have "fst (chat_input generate score prompt now st db) =
        map_sum id Some (generate [] (ss_messages st) prompt)"
      by (simp add: build_context_def)
  }
  with main show ?thesis by blast
qed


lemmas ex_defs = ex_db_def ex_chats_def ex_documents_def raises_def select_chat_def is_chat_def

text \<open>C4 at a store whose first upsert attempt raises.\<close>

theorem save_then_load_witness:
  "\<not> (raises 0 (ex_db [True, False]) \<and> raises 1 (ex_db [True, False])) \<and>
   \<not> raises 0 (snd (save_history ''ann'' ''X'' [HumanMessage ''hi'', AIMessage ''yo''] ''t1''
                    (ex_db [True, False]))) \<and>
   fst (load_history ''ann'' ''X''
         (snd (save_history ''ann'' ''X'' [HumanMessage ''hi'', AIMessage ''yo''] ''t1''
                (ex_db [True, False]))))
     = [HumanMessage ''hi'', AIMessage ''yo'']"
proof -
  have h1: "\<not> (raises 0 (ex_db [True, False]) \<and> raises 1 (ex_db [True, False]))"
    by (simp add: ex_defs)
  have h2: "\<not> raises 0 (snd (save_history ''ann'' ''X'' [HumanMessage ''hi'', AIMessage ''yo''] ''t1''
                    (ex_db [True, False])))"
    by (simp add: ex_defs save_history_def execute_def)
  from h1 h2 save_then_load [OF h1 h2] show ?thesis by blast
qed

text \<open>C5 at an existing chat, and at a new chat whose first insert attempt raises.\<close>

theorem create_new_chat_spec_witness:
  "select_chat ''ann'' ''X'' (chats (ex_db [])) \<noteq> [] \<and>
   \<not> fst (create_new_chat ''ann'' ''X'' ''t1'' ''t2'' (ex_db [])) \<and>
   chats (snd (create_new_chat ''ann'' ''X'' ''t1'' ''t2'' (ex_db []))) = chats (ex_db []) \<and>
   select_chat ''ann'' ''Y'' (chats (ex_db [False, True, False])) = [] \<and>
   \<not> raises 0 (ex_db [False, True, False]) \<and>
   \<not> (raises 1 (ex_db [False, True, False]) \<and> raises 2 (ex_db [False, True, False])) \<and>
   fst (create_new_chat ''ann'' ''Y'' ''t1'' ''t2'' (ex_db [False, True, False])) \<and>
   chat_count ''ann'' (snd (create_new_chat ''ann'' ''Y'' ''t1'' ''t2'' (ex_db [False, True, False])))
     = chat_count ''ann'' (ex_db [False, True, False]) + 1 \<and>
   \<not> fst (create_new_chat ''ann'' ''Y'' ''t3'' ''t4''
           (snd (create_new_chat ''ann'' ''Y'' ''t1'' ''t2'' (ex_db [False, True, False]))))"
proof -
  have h1: "select_chat ''ann'' ''X'' (chats (ex_db [])) \<noteq> []"
    by (simp add: ex_defs)
  have h2: "select_chat ''ann'' ''Y'' (chats (ex_db [False, True, False])) = [] \<and>
      \<not> raises 0 (ex_db [False, True, False]) \<and>
      \<not> (raises 1 (ex_db [False, True, False]) \<and> raises 2 (ex_db [False, True, False]))"
    by (simp add: ex_defs)
  from h1 h2
    create_new_chat_spec [where u = "''ann''" and x = "''X''" and db = "ex_db []"
      and ?t1.0 = "''t1''" and ?t2.0 = "''t2''" and ?t3.0 = "''t3''" and ?t4.0 = "''t4''"]
    create_new_chat_spec [where u = "''ann''" and x = "''Y''" and db = "ex_db [False, True, False]"
      and ?t1.0 = "''t1''" and ?t2.0 = "''t2''" and ?t3.0 = "''t3''" and ?t4.0 = "''t4''"]
  show ?thesis by blast
qed

text \<open>
  C6 as stated fails: renaming a chat whose \<^verbatim>\<open>updated_at\<close> is \<^verbatim>\<open>t0\<close> at time \<^verbatim>\<open>t1\<close>
  rewrites that column as well as the name.
\<close>

theorem rename_updated_at_counterexample:
  "fst (rename_chat ''ann'' ''X'' ''Y'' ''t1'' (ex_db [])) \<and>
   map updated_at (chats (ex_db [])) = [Some ''t0'', None] \<and>
   map updated_at (chats (snd (rename_chat ''ann'' ''X'' ''Y'' ''t1'' (ex_db [])))) = [Some ''t1'', None] \<and>
   chats (snd (rename_chat ''ann'' ''X'' ''Y'' ''t1'' (ex_db []))) \<noteq>
     map (\<lambda>r. if is_chat ''ann'' ''X'' r then r\<lparr>chat_name := ''Y''\<rparr> else r) (chats (ex_db []))"
  by (simp add: ex_defs rename_chat_def execute_def update_chat_name_def)

text \<open>C6, amended, at a name that is taken and at a rename that goes through.\<close>

theorem rename_chat_amended_witness:
  "select_chat ''ann'' ''X'' (chats (ex_db [])) \<noteq> [] \<and>
   \<not> fst (rename_chat ''ann'' ''Q'' ''X'' ''t1'' (ex_db [])) \<and>
   (''Y'' \<noteq> [] \<and> ''Y'' \<noteq> ''X'' \<and> select_chat ''ann'' ''Y'' (chats (ex_db [False, True])) = [] \<and>
    \<not> raises 0 (ex_db [False, True]) \<and>
    \<not> (raises 1 (ex_db [False, True]) \<and> raises 2 (ex_db [False, True]))) \<and>
   fst (rename_chat ''ann'' ''X'' ''Y'' ''t1'' (ex_db [False, True])) \<and>
   fst (load_history ''ann'' ''X'' (snd (rename_chat ''ann'' ''X'' ''Y'' ''t1'' (ex_db [False, True])))) = [] \<and>
   \<not> raises 0 (snd (rename_chat ''ann'' ''X'' ''Y'' ''t1'' (ex_db [False, True]))) \<and>
   fst (load_history ''ann'' ''Y'' (snd (rename_chat ''ann'' ''X'' ''Y'' ''t1'' (ex_db [False, True]))))
     = fst (load_history ''ann'' ''X'' (ex_db [False, True])) \<and>
   fst (load_history ''ann'' ''X'' (ex_db [False, True])) = [HumanMessage ''q'', AIMessage ''a'']"
proof -
  have h1: "select_chat ''ann'' ''X'' (chats (ex_db [])) \<noteq> []"
    by (simp add: ex_defs)
  have h2: "''Y'' \<noteq> [] \<and> ''Y'' \<noteq> ''X'' \<and> select_chat ''ann'' ''Y'' (chats (ex_db [False, True])) = [] \<and>
    \<not> raises 0 (ex_db [False, True]) \<and>
    \<not> (raises 1 (ex_db [False, True]) \<and> raises 2 (ex_db [False, True]))"
    by (simp add: ex_defs)
  have h3: "\<not> raises 0 (snd (rename_chat ''ann'' ''X'' ''Y'' ''t1'' (ex_db [False, True])))"
    by (simp add: ex_defs rename_chat_def execute_def)
  have h4: "fst (load_history ''ann'' ''X'' (ex_db [False, True])) = [HumanMessage ''q'', AIMessage ''a'']"
    by (simp add: ex_defs load_history_def execute_def from_json_def)
  from h1 h2 h3 h4
    rename_chat_amended [where u = "''ann''" and old = "''Q''" and new = "''X''" and db = "ex_db []"
      and now = "''t1''"]
    rename_chat_amended [where u = "''ann''" and old = "''X''" and new = "''Y''"
      and db = "ex_db [False, True]" and now = "''t1''"]
  show ?thesis by blast
qed

text \<open>C10 at a chat name the user does not have.\<close>

theorem rename_absent_chat_true_witness:
  "select_chat ''ann'' ''nope'' (chats (ex_db [False, True, False])) = [] \<and>
   select_chat ''ann'' ''Z'' (chats (ex_db [False, True, False])) = [] \<and>
   ''Z'' \<noteq> [] \<and> ''Z'' \<noteq> ''nope'' \<and>
   \<not> raises 0 (ex_db [False, True, False]) \<and>
   \<not> (raises 1 (ex_db [False, True, False]) \<and> raises 2 (ex_db [False, True, False])) \<and>
   fst (rename_chat ''ann'' ''nope'' ''Z'' ''t1'' (ex_db [False, True, False])) \<and>
   chats (snd (rename_chat ''ann'' ''nope'' ''Z'' ''t1'' (ex_db [False, True, False])))
     = chats (ex_db [False, True, False])"
proof -
  have h1: "select_chat ''ann'' ''nope'' (chats (ex_db [False, True, False])) = []"
    and h2: "select_chat ''ann'' ''Z'' (chats (ex_db [False, True, False])) = []"
    and h3: "''Z'' \<noteq> []" and h4: "''Z'' \<noteq> ''nope''"
    and h5: "\<not> raises 0 (ex_db [False, True, False])"
    and h6: "\<not> (raises 1 (ex_db [False, True, False]) \<and> raises 2 (ex_db [False, True, False]))"
    by (simp_all add: ex_defs)
  from rename_absent_chat_true [OF h1 h2 h3 h4 h5 h6, of "''t1''"] h1 h2 h3 h4 h5 h6
  show ?thesis by blast
qed

text \<open>C9 at an absent chat and at an existing one.\<close>

theorem delete_chat_spec_witness:
  "select_chat ''ann'' ''nope'' (chats (ex_db [])) = [] \<and>
   chats (snd (delete_chat ''ann'' ''nope'' (ex_db []))) = chats (ex_db []) \<and>
   \<not> raises 0 (ex_db []) \<and>
   fst (delete_chat ''ann'' ''X'' (ex_db [])) = Inr () \<and>
   chats (snd (delete_chat ''ann'' ''X'' (ex_db []))) = [ex_chats ! 1] \<and>
   fst (load_history ''ann'' ''X'' (snd (delete_chat ''ann'' ''X'' (ex_db [])))) = []"
proof -
  have h1: "select_chat ''ann'' ''nope'' (chats (ex_db [])) = []" and h2: "\<not> raises 0 (ex_db [])"
    by (simp_all add: ex_defs)
  have h3: "filter (\<lambda>r. \<not> is_chat ''ann'' ''X'' r) (chats (ex_db [])) = [ex_chats ! 1]"
    by (simp add: ex_defs)
  from h1 h2 h3
    delete_chat_spec [where u = "''ann''" and x = "''nope''" and db = "ex_db []"]
    delete_chat_spec [where u = "''ann''" and x = "''X''" and db = "ex_db []"]
  show ?thesis by simp
qed


lemma create_true_written:
  assumes "fst (create_new_chat u x t1 t2 db)"
  shows "select_chat u x (chats (snd (create_new_chat u x t1 t2 db))) \<noteq> []"
proof -
  from assms create_existing [of u x db t1 t2] have absent: "select_chat u x (chats db) = []"
    by blast
  from assms create_failing [of db u x t1 t2]
  have "\<not> raises 0 db" "\<not> (raises 1 db \<and> raises 2 db)" by blast+
  with absent obtain c t
    where "chats (snd (create_new_chat u x t1 t2 db)) = chats db @ [new_chat_row u x c t]"
    using create_absent [of u x db t1 t2] by blast
  then show ?thesis by (simp add: select_append select_new_chat_row)
qed

text \<open>
  Claim C3, amended. A store failure is reported by \<^verbatim>\<open>create_new_chat\<close> and by
  \<^verbatim>\<open>add_documents\<close>: when the select of \<^verbatim>\<open>create_new_chat\<close> or both of its insert attempts
  raise, it returns false and no row is written, and whenever it returns true the row is
  there; when a request of the vector store's write raises, \<^verbatim>\<open>add_documents\<close> raises, and
  when it returns normally on a non-empty list all the tagged splits are written.
  \<^verbatim>\<open>save_history\<close> reports nothing: it returns normally in every case, also when both of
  its upsert attempts raise and the rows are left as they were.
\<close>

theorem write_failures_amended:
  "(raises 0 db \<or> (raises 1 db \<and> raises 2 db) \<longrightarrow>
      \<not> fst (create_new_chat u x t1 t2 db) \<and>
      chats (snd (create_new_chat u x t1 t2 db)) = chats db) \<and>
   (fst (create_new_chat u x t1 t2 db) \<longrightarrow>
      select_chat u x (chats (snd (create_new_chat u x t1 t2 db))) \<noteq> []) \<and>
   (docs \<noteq> [] \<and> (\<exists>i < batch_count (sp docs). raises i db) \<longrightarrow>
      fst (add_documents sp u docs db) = Inl StoreError) \<and>
   (fst (add_documents sp u docs db) = Inr () \<and> docs \<noteq> [] \<longrightarrow>
      documents (snd (add_documents sp u docs db)) = documents db @ map (set_username u) (sp docs)) \<and>
   fst (save_history u x msgs now db) = Inr () \<and>
   (raises 0 db \<and> raises 1 db \<longrightarrow> chats (snd (save_history u x msgs now db)) = chats db)"
proof (intro conjI impI)
  assume "raises 0 db \<or> (raises 1 db \<and> raises 2 db)"
  then show "\<not> fst (create_new_chat u x t1 t2 db)"
    and "chats (snd (create_new_chat u x t1 t2 db)) = chats db"
    using create_failing by blast+
next
  assume "fst (create_new_chat u x t1 t2 db)"
  then show "select_chat u x (chats (snd (create_new_chat u x t1 t2 db))) \<noteq> []"
    by (rule create_true_written)
next
  assume "docs \<noteq> [] \<and> (\<exists>i < batch_count (sp docs). raises i db)"
  then show "fst (add_documents sp u docs db) = Inl StoreError"
    by (simp add: add_documents_result)
next
  assume "fst (add_documents sp u docs db) = Inr () \<and> docs \<noteq> []"
  then show "documents (snd (add_documents sp u docs db)) =
      documents db @ map (set_username u) (sp docs)"
    by (simp add: add_documents_complete)
next
  show "fst (save_history u x msgs now db) = Inr ()"
    by (rule save_history_result)
next
  assume "raises 0 db \<and> raises 1 db"
  then show "chats (snd (save_history u x msgs now db)) = chats db"
    by (simp add: save_history_dropped)
qed

text \<open>
  C3 as stated fails for \<^verbatim>\<open>save_history\<close>: with both upsert attempts raising it returns
  what it returns on a healthy store, and the rows are unchanged, whereas on the healthy
  store they change.
\<close>

theorem save_failure_silent_counterexample:
  "fst (save_history ''ann'' ''X'' [HumanMessage ''hi''] ''t1'' (ex_db [True, True]))
     = fst (save_history ''ann'' ''X'' [HumanMessage ''hi''] ''t1'' (ex_db [])) \<and>
   chats (snd (save_history ''ann'' ''X'' [HumanMessage ''hi''] ''t1'' (ex_db [True, True])))
     = chats (ex_db [True, True]) \<and>
   chats (snd (save_history ''ann'' ''X'' [HumanMessage ''hi''] ''t1'' (ex_db [])))
     \<noteq> chats (ex_db [])"
  by (simp add: ex_defs save_history_def execute_def upsert_chat_def)

text \<open>C3, amended, at failing and at healthy stores.\<close>

theorem write_failures_amended_witness:
  "(raises 0 (ex_db [False, True, True]) \<or>
      (raises 1 (ex_db [False, True, True]) \<and> raises 2 (ex_db [False, True, True]))) \<and>
   \<not> fst (create_new_chat ''ann'' ''Y'' ''t1'' ''t2'' (ex_db [False, True, True])) \<and>
   fst (create_new_chat ''ann'' ''Y'' ''t1'' ''t2'' (ex_db [])) \<and>
   select_chat ''ann'' ''Y'' (chats (snd (create_new_chat ''ann'' ''Y'' ''t1'' ''t2'' (ex_db [])))) \<noteq> [] \<and>
   (ex_documents \<noteq> [] \<and> batch_count ex_documents = 1 \<and> raises 0 (ex_db [True])) \<and>
   fst (add_documents (\<lambda>ds. ds) ''ann'' ex_documents (ex_db [True])) = Inl StoreError \<and>
   fst (add_documents (\<lambda>ds. ds) ''ann'' ex_documents (ex_db [])) = Inr () \<and>
   documents (snd (add_documents (\<lambda>ds. ds) ''ann'' ex_documents (ex_db [])))
     = documents (ex_db []) @ map (set_username ''ann'') ex_documents \<and>
   (raises 0 (ex_db [True, True]) \<and> raises 1 (ex_db [True, True])) \<and>
   chats (snd (save_history ''ann'' ''X'' [HumanMessage ''hi''] ''t1'' (ex_db [True, True])))
     = chats (ex_db [True, True])"
proof -
  have h1: "raises 0 (ex_db [False, True, True]) \<or>
      (raises 1 (ex_db [False, True, True]) \<and> raises 2 (ex_db [False, True, True]))"
    by (simp add: ex_defs)
  have h2: "fst (create_new_chat ''ann'' ''Y'' ''t1'' ''t2'' (ex_db []))"
    by (simp add: ex_defs create_new_chat_def execute_def)
  have h3: "ex_documents \<noteq> [] \<and> batch_count ex_documents = 1 \<and> raises 0 (ex_db [True])"
    by (simp add: ex_defs batch_count_def)
  then have h3': "ex_documents \<noteq> [] \<and> (\<exists>i < batch_count ex_documents. raises i (ex_db [True]))"
    by simp
  have "\<not> (\<exists>i < batch_count ex_documents. raises i (ex_db []))"
    by (simp add: ex_db_def raises_def)
  then have h4: "fst (add_documents (\<lambda>ds. ds) ''ann'' ex_documents (ex_db [])) = Inr () \<and> ex_documents \<noteq> []"
    using h3 by (simp add: add_documents_result)
  have h5: "raises 0 (ex_db [True, True]) \<and> raises 1 (ex_db [True, True])"
    by (simp add: ex_defs)
  note t = write_failures_amended [where u = "''ann''" and x = "''Y''" and ?t1.0 = "''t1''"
      and ?t2.0 = "''t2''" and docs = ex_documents and sp = "\<lambda>ds. ds" and now = "''t1''"
      and msgs = "[HumanMessage ''hi'']"]
  note s = write_failures_amended [where u = "''ann''" and x = "''X''" and ?t1.0 = "''t1''"
      and ?t2.0 = "''t2''" and docs = ex_documents and sp = "\<lambda>ds. ds" and now = "''t1''"
      and msgs = "[HumanMessage ''hi'']" and db = "ex_db [True, True]"]
  have c1: "\<not> fst (create_new_chat ''ann'' ''Y'' ''t1'' ''t2'' (ex_db [False, True, True]))"
    using t [where db = "ex_db [False, True, True]", THEN conjunct1] h1 by (rule mp [THEN conjunct1])
  have c2: "select_chat ''ann'' ''Y''
      (chats (snd (create_new_chat ''ann'' ''Y'' ''t1'' ''t2'' (ex_db [])))) \<noteq> []"
    using t [where db = "ex_db []", THEN conjunct2, THEN conjunct1] h2 by (rule mp)
  have c3: "fst (add_documents (\<lambda>ds. ds) ''ann'' ex_documents (ex_db [True])) = Inl StoreError"
    using t [where db = "ex_db [True]", THEN conjunct2, THEN conjunct2, THEN conjunct1] h3'
    by (rule mp)
  have c4: "documents (snd (add_documents (\<lambda>ds. ds) ''ann'' ex_documents (ex_db [])))
     = documents (ex_db []) @ map (set_username ''ann'') ex_documents"
    using t [where db = "ex_db []", THEN conjunct2, THEN conjunct2, THEN conjunct2, THEN conjunct1] h4
    by (rule mp)
  have c5: "chats (snd (save_history ''ann'' ''X'' [HumanMessage ''hi''] ''t1'' (ex_db [True, True])))
     = chats (ex_db [True, True])"
    using s [THEN conjunct2, THEN conjunct2, THEN conjunct2, THEN conjunct2, THEN conjunct2] h5
    by (rule mp)
  from h1 c1 h2 c2 h3 c3 h4 c4 h5 c5 show ?thesis by (intro conjI) (simp_all only: simp_thms)
qed

text \<open>
  C2 at the empty list, and at two documents of which one has no metadata and the other
  names another user.
\<close>

theorem add_documents_tags_owner_witness:
  "add_documents (\<lambda>ds. ds) ''ann'' [] (ex_db []) = (Inr (), ex_db []) \<and>
   ([\<lparr>page_content = ''p'', metadata = None\<rparr>,
     \<lparr>page_content = ''q'', metadata = Some [(''username'', ''bob''), (''source'', ''f.txt'')]\<rparr>] \<noteq> [] \<and>
    \<not> raises 0 (ex_db [])) \<and>
   fst (add_documents (\<lambda>ds. ds) ''ann''
       [\<lparr>page_content = ''p'', metadata = None\<rparr>,
        \<lparr>page_content = ''q'', metadata = Some [(''username'', ''bob''), (''source'', ''f.txt'')]\<rparr>]
       (ex_db [])) = Inr () \<and>
   documents (snd (add_documents (\<lambda>ds. ds) ''ann''
       [\<lparr>page_content = ''p'', metadata = None\<rparr>,
        \<lparr>page_content = ''q'', metadata = Some [(''username'', ''bob''), (''source'', ''f.txt'')]\<rparr>]
       (ex_db [])))
     = ex_documents @
       [\<lparr>page_content = ''p'', metadata = Some [(''username'', ''ann'')]\<rparr>,
        \<lparr>page_content = ''q'', metadata = Some [(''username'', ''ann''), (''source'', ''f.txt'')]\<rparr>]"
proof -
  let ?docs = "[\<lparr>page_content = ''p'', metadata = None\<rparr>,
     \<lparr>page_content = ''q'', metadata = Some [(''username'', ''bob''), (''source'', ''f.txt'')]\<rparr>]"
  have h: "?docs \<noteq> [] \<and> \<not> raises 0 (ex_db [])"
    by (simp add: ex_defs)
  have b: "\<forall>i < batch_count ((\<lambda>ds. ds) ?docs). \<not> raises i (ex_db [])"
    by (simp add: ex_db_def raises_def)
  have e: "documents (ex_db []) @ map (set_username ''ann'') ?docs =
      ex_documents @
       [\<lparr>page_content = ''p'', metadata = Some [(''username'', ''ann'')]\<rparr>,
        \<lparr>page_content = ''q'', metadata = Some [(''username'', ''ann''), (''source'', ''f.txt'')]\<rparr>]"
    by (simp add: ex_db_def set_username_def)
  note t = add_documents_tags_owner [where sp = "\<lambda>ds. ds" and u = "''ann''" and db = "ex_db []"]
  from t [where docs = ?docs] have 1: "add_documents (\<lambda>ds. ds) ''ann'' [] (ex_db []) = (Inr (), ex_db [])"
    by (rule conjunct1)
  from t [where docs = ?docs] h b
  have 2: "fst (add_documents (\<lambda>ds. ds) ''ann'' ?docs (ex_db [])) = Inr () \<and>
      documents (snd (add_documents (\<lambda>ds. ds) ''ann'' ?docs (ex_db []))) =
        documents (ex_db []) @ map (set_username ''ann'') ?docs"
    by blast
  from 1 2 h show ?thesis unfolding e by blast
qed

text \<open>C1 at two users who both have a chunk of a file called report.pdf.\<close>

theorem no_cross_user_retrieval_witness:
  "''ann'' \<noteq> ''bob'' \<and>
   similarity_search ex_score (as_retriever ''ann'') ''report'' (documents (ex_db []))
     = [ex_documents ! 0] \<and>
   map (metadata_get ''username'')
     (similarity_search ex_score (as_retriever ''ann'') ''report'' (documents (ex_db [])))
     = [Some ''ann''] \<and>
   similarity_search ex_score (as_retriever ''ann'') ''report''
     (filter (\<lambda>d. metadata_get ''username'' d \<noteq> Some ''bob'') (documents (ex_db [])))
     = [ex_documents ! 0] \<and>
   fst (get_document_sources ''ann'' (ex_db [])) = [''report.pdf''] \<and>
   fst (get_document_sources ''ann''
         ((ex_db [])\<lparr>documents :=
            filter (\<lambda>d. metadata_get ''username'' d \<noteq> Some ''bob'') (documents (ex_db []))\<rparr>))
     = [''report.pdf'']"
proof -
  have h: "''ann'' \<noteq> ''bob''" by simp
  have s: "similarity_search ex_score (as_retriever ''ann'') ''report'' (documents (ex_db []))
     = [ex_documents ! 0]"
    by (simp add: ex_defs similarity_search_def as_retriever_def contains_metadata_def)
  have g: "fst (get_document_sources ''ann'' (ex_db [])) = [''report.pdf'']"
    by (simp add: ex_defs get_document_sources_def execute_def contains_metadata_def basename_def)
  have m: "map (metadata_get ''username'') [ex_documents ! 0] = [Some ''ann'']"
    by (simp add: ex_defs metadata_get_def)
  from h s g m no_cross_user_retrieval [OF h, of ex_score "''report''" "ex_db []"]
  show ?thesis by simp
qed

text \<open>C8 at a user with one chunk and at a user with none.\<close>

theorem answer_steps_witness:
  "''what?'' \<noteq> [] \<and> \<not> raises 0 (ex_db []) \<and>
   fst (chat_input ex_generate ex_score ''what?'' ''t1'' ex_session (ex_db []))
     = Inr (Some ''what?|ann text'') \<and>
   filter (\<lambda>d. metadata_get ''username'' d = Some (ss_username (ex_session\<lparr>ss_username := ''cy''\<rparr>)))
     (documents (ex_db [])) = [] \<and>
   fst (chat_input ex_generate ex_score ''what?'' ''t1'' (ex_session\<lparr>ss_username := ''cy''\<rparr>) (ex_db []))
     = Inr (Some ''what?|'')"
proof -
  have h1: "''what?'' \<noteq> []" and h2: "\<not> raises 0 (ex_db [])"
    by (simp_all add: ex_defs)
  have h3: "filter (\<lambda>d. metadata_get ''username'' d = Some (ss_username (ex_session\<lparr>ss_username := ''cy''\<rparr>)))
     (documents (ex_db [])) = []"
    by (simp add: ex_defs metadata_get_def)
  have c: "build_context (similarity_search ex_score
      \<lparr>search_filter = [(''username'', ss_username ex_session)], search_k = 5\<rparr>
      ''what?'' (documents (ex_db []))) = ''ann text''"
    by (simp add: ex_defs ex_session_def similarity_search_def contains_metadata_def build_context_def)
  from answer_steps [OF h1 h2, of ex_generate ex_score "''t1''" ex_session]
  have "fst (chat_input ex_generate ex_score ''what?'' ''t1'' ex_session (ex_db [])) =
      map_sum id Some
        (ex_generate
           (build_context (similarity_search ex_score
              \<lparr>search_filter = [(''username'', ss_username ex_session)], search_k = 5\<rparr>
              ''what?'' (documents (ex_db []))))
           (ss_messages ex_session) ''what?'')"
    by (rule conjunct1)
  then have r1: "fst (chat_input ex_generate ex_score ''what?'' ''t1'' ex_session (ex_db []))
      = Inr (Some ''what?|ann text'')"
    unfolding c by (simp add: ex_generate_def)
  from answer_steps [OF h1 h2, of ex_generate ex_score "''t1''" "ex_session\<lparr>ss_username := ''cy''\<rparr>"] h3
  have "fst (chat_input ex_generate ex_score ''what?'' ''t1'' (ex_session\<lparr>ss_username := ''cy''\<rparr>) (ex_db []))
      = map_sum id Some (ex_generate [] (ss_messages (ex_session\<lparr>ss_username := ''cy''\<rparr>)) ''what?'')"
    by blast
  then have r2: "fst (chat_input ex_generate ex_score ''what?'' ''t1'' (ex_session\<lparr>ss_username := ''cy''\<rparr>) (ex_db []))
      = Inr (Some ''what?|'')"
    by (simp add: ex_generate_def)
  from h1 h2 h3 r1 r2 show ?thesis by blast
qed

end
